theory Spec2Isabelle
  imports Main
begin

section \<open>Go strings, errors and requests\<close>

text \<open>
  A Go string is a sequence of bytes; it is modelled as \<^typ>\<open>string\<close> (a list of 8-bit
  characters). A rune (Unicode code point) is a \<^typ>\<open>nat\<close>. Go's \<open>int\<close> fields
  (\<open>Season\<close>, \<open>Episode\<close>, HTTP status codes) are only compared and printed, never computed
  with, so they are modelled as \<^typ>\<open>int\<close>.
\<close>

text \<open>
  The program builds its errors with \<open>fmt.Errorf\<close>; every message of the source is one
  constructor, carrying the values the message prints.
\<close>

datatype error =
    EmptyIMDBID string                \<comment> \<open>"cannot build movie/tv URL: imdbId is empty" (the kind built)\<close>
  | SeasonEpisodeNotSet string        \<comment> \<open>"cannot build tv URL for imdbId %q: season and episode must be set"\<close>
  | UnsupportedMediaType string string \<comment> \<open>"unsupported media type %q for imdbId %q"\<close>
  | CreatingRequest string            \<comment> \<open>"creating request for %q"\<close>
  | FetchingPage string               \<comment> \<open>"fetching page %q" / "fetching master playlist %q"\<close>
  | UnexpectedStatus string int       \<comment> \<open>"unexpected status code %d for page %q"\<close>
  | ReadingBody string                \<comment> \<open>"reading page body %q" / "reading master playlist %q"\<close>
  | ParsingHTML string                \<comment> \<open>"parsing embed HTML" / "parsing ProRCP HTML"\<close>
  | NoIframeSrc                       \<comment> \<open>"no iframe src found for RCP URL"\<close>
  | NoProRCPURL                       \<comment> \<open>"no ProRCP URL found in RCP page"\<close>
  | NoHiddenDiv                       \<comment> \<open>"no hidden div found"\<close>
  | DecodingBase64                    \<comment> \<open>"decoding Base64: ..." (returned by Deobfuscate)\<close>
  | DeobfuscatingContent              \<comment> \<open>"deobfuscating content: decoding Base64: ..."\<close>
  | MissingComponents                 \<comment> \<open>"failed to extract necessary components for decoding"\<close>
  | NoStreamVariants string           \<comment> \<open>"no stream variants found in master playlist %q"\<close>

text \<open>The error kinds of the specification, and the kind each message of the code belongs to.\<close>

datatype error_kind =
    InvalidRequest | UnsupportedMediaKind | TransportError | UnexpectedStatusKind
  | ExtractionFailed string | DecodeFailed | NoVariantsFound

fun kind_of :: "error \<Rightarrow> error_kind" where
  "kind_of (EmptyIMDBID _) = InvalidRequest"
| "kind_of (SeasonEpisodeNotSet _) = InvalidRequest"
| "kind_of (UnsupportedMediaType _ _) = UnsupportedMediaKind"
| "kind_of (CreatingRequest _) = TransportError"
| "kind_of (FetchingPage _) = TransportError"
| "kind_of (UnexpectedStatus _ _) = UnexpectedStatusKind"
| "kind_of (ReadingBody _) = TransportError"
| "kind_of (ParsingHTML s) = ExtractionFailed s"
| "kind_of NoIframeSrc = ExtractionFailed ''rcp-url''"
| "kind_of NoProRCPURL = ExtractionFailed ''prorcp-url''"
| "kind_of NoHiddenDiv = ExtractionFailed ''hidden-token''"
| "kind_of DecodingBase64 = DecodeFailed"
| "kind_of DeobfuscatingContent = DecodeFailed"
| "kind_of MissingComponents = ExtractionFailed ''hidden-token''"
| "kind_of (NoStreamVariants _) = NoVariantsFound"

text \<open>\<open>type MediaType string\<close> with the constants \<open>Movie = "movie"\<close> and \<open>TV = "tv"\<close>.\<close>

type_synonym MediaType = string

definition Movie :: MediaType where
  "Movie = ''movie''"

definition TV :: MediaType where
  "TV = ''tv''"

record ResolveOptions =
  IMDBID :: string
  Type :: MediaType
  Season :: int
  Episode :: int

record StreamVariant =
  Resolution :: string
  Bandwidth :: string
  URL :: string

section \<open>Building the entry URL\<close>

text \<open>The verb \<open>%d\<close> of \<open>fmt.Sprintf\<close>: decimal digits, with a minus sign when negative.\<close>

definition digit_char :: "nat \<Rightarrow> char" where
  "digit_char d = ''0123456789'' ! d"

function digits_of :: "nat \<Rightarrow> string" where
  "digits_of n = (if n < 10 then [digit_char n] else digits_of (n div 10) @ [digit_char (n mod 10)])"
  by pat_completeness auto
termination
  by (relation "measure id") auto

declare digits_of.simps [simp del]

definition fmt_d :: "int \<Rightarrow> string" where
  "fmt_d i = (if i < 0 then CHR ''-'' # digits_of (nat (- i)) else digits_of (nat i))"

definition vidsrcBase :: string where
  "vidsrcBase = ''https://vidsrc-embed.ru''"

definition buildEmbedURL :: "ResolveOptions \<Rightarrow> error + string" where
  "buildEmbedURL o' =
     (if Type o' = Movie then
        (if IMDBID o' = [] then Inl (EmptyIMDBID ''movie'')
         else Inr (vidsrcBase @ ''/embed/movie?imdb='' @ IMDBID o'))
      else if Type o' = TV then
        (if IMDBID o' = [] then Inl (EmptyIMDBID ''tv'')
         else if Season o' = 0 \<or> Episode o' = 0 then Inl (SeasonEpisodeNotSet (IMDBID o'))
         else Inr (vidsrcBase @ ''/embed/tv?imdb='' @ IMDBID o' @ ''&season='' @ fmt_d (Season o')
                     @ ''&episode='' @ fmt_d (Episode o')))
      else Inl (UnsupportedMediaType (Type o') (IMDBID o')))"


section \<open>Library functions of package strings\<close>

fun HasPrefix :: "string \<Rightarrow> string \<Rightarrow> bool" where
  "HasPrefix s [] = True"
| "HasPrefix [] (p # ps) = False"
| "HasPrefix (c # cs) (p # ps) = (c = p \<and> HasPrefix cs ps)"

fun Contains :: "string \<Rightarrow> string \<Rightarrow> bool" where
  "Contains [] sub = (sub = [])"
| "Contains (c # cs) sub = (HasPrefix (c # cs) sub \<or> Contains cs sub)"

text \<open>\<open>strings.Split(s, sep)\<close> for a separator of one byte; \<open>Split("", sep)\<close> is \<open>[""]\<close>.\<close>

fun Split :: "string \<Rightarrow> char \<Rightarrow> string list" where
  "Split [] sep = [[]]"
| "Split (c # cs) sep =
     (if c = sep then [] # Split cs sep
      else (case Split cs sep of [] \<Rightarrow> [[c]] | l # ls \<Rightarrow> (c # l) # ls))"

text \<open>\<open>strings.Trim(s, cutset)\<close> for a cutset of one ASCII byte.\<close>

definition Trim :: "string \<Rightarrow> char \<Rightarrow> string" where
  "Trim s q = rev (dropWhile (\<lambda>c. c = q) (rev (dropWhile (\<lambda>c. c = q) s)))"

section \<open>UTF-8: strings and rune slices\<close>

definition RuneError :: nat where
  "RuneError = 0xFFFD"

definition is_cont :: "char \<Rightarrow> bool" where
  "is_cont c = (0x80 \<le> (of_char c :: nat) \<and> (of_char c :: nat) \<le> 0xBF)"

text \<open>
  \<open>decoderune\<close> of the Go runtime, which the conversion \<open>[]rune(s)\<close> runs at every position:
  the rune at the front of the string and its width in bytes. A byte that starts no valid
  encoding decodes to \<open>RuneError\<close> with width 1.
\<close>

fun decoderune :: "string \<Rightarrow> nat \<times> nat" where
  "decoderune [] = (RuneError, 1)"
| "decoderune (c0 # s) =
    (let b0 = (of_char c0 :: nat) in
     if b0 < 0x80 then (b0, 1)
     else if 0xC0 \<le> b0 \<and> b0 < 0xE0 then
       (case s of
          c1 # _ \<Rightarrow>
            if is_cont c1 then
              (let r = (b0 mod 32) * 64 + of_char c1 mod 64
               in if 0x7F < r then (r, 2) else (RuneError, 1))
            else (RuneError, 1)
        | _ \<Rightarrow> (RuneError, 1))
     else if 0xE0 \<le> b0 \<and> b0 < 0xF0 then
       (case s of
          c1 # c2 # _ \<Rightarrow>
            if is_cont c1 \<and> is_cont c2 then
              (let r = (b0 mod 16) * 4096 + (of_char c1 mod 64) * 64 + of_char c2 mod 64
               in if 0x7FF < r \<and> \<not> (0xD800 \<le> r \<and> r \<le> 0xDFFF) then (r, 3)
                  else (RuneError, 1))
            else (RuneError, 1)
        | _ \<Rightarrow> (RuneError, 1))
     else if 0xF0 \<le> b0 \<and> b0 < 0xF8 then
       (case s of
          c1 # c2 # c3 # _ \<Rightarrow>
            if is_cont c1 \<and> is_cont c2 \<and> is_cont c3 then
              (let r = (b0 mod 8) * 262144 + (of_char c1 mod 64) * 4096
                         + (of_char c2 mod 64) * 64 + of_char c3 mod 64
               in if 0xFFFF < r \<and> r \<le> 0x10FFFF then (r, 4) else (RuneError, 1))
            else (RuneError, 1)
        | _ \<Rightarrow> (RuneError, 1))
     else (RuneError, 1))"

declare decoderune.simps [simp del]

text \<open>The conversion \<open>[]rune(s)\<close>.\<close>

function runes_of :: "string \<Rightarrow> nat list" where
  "runes_of [] = []"
| "runes_of (c # cs) = fst (decoderune (c # cs)) # runes_of (drop (snd (decoderune (c # cs)) - 1) cs)"
  by pat_completeness auto
termination
  by (relation "measure length") auto

text \<open>
  \<open>encoderune\<close> of the Go runtime, which the conversion \<open>string(runes)\<close> runs on every
  rune: a surrogate or a value beyond \<open>U+10FFFF\<close> is written as \<open>RuneError\<close>.
\<close>

definition encoderune :: "nat \<Rightarrow> string" where
  "encoderune r =
    (if r < 0x80 then [char_of r]
     else if r < 0x800 then [char_of (0xC0 + r div 64), char_of (0x80 + r mod 64)]
     else if 0x10FFFF < r \<or> (0xD800 \<le> r \<and> r \<le> 0xDFFF) then [CHR 0xEF, CHR 0xBF, CHR 0xBD]
     else if r < 0x10000 then
       [char_of (0xE0 + r div 4096), char_of (0x80 + (r div 64) mod 64), char_of (0x80 + r mod 64)]
     else
       [char_of (0xF0 + r div 262144), char_of (0x80 + (r div 4096) mod 64),
        char_of (0x80 + (r div 64) mod 64), char_of (0x80 + r mod 64)])"

definition string_of_runes :: "nat list \<Rightarrow> string" where
  "string_of_runes rs = concat (map encoderune rs)"

section \<open>strings.TrimSpace\<close>

text \<open>
  The runes with the Unicode property White_Space, which \<open>unicode.IsSpace\<close> accepts.
  \<open>strings.TrimSpace\<close> removes the encodings of such runes from the front of the string
  and then from its end.
\<close>

definition White_Space :: "nat list" where
  "White_Space = [0x09, 0x0A, 0x0B, 0x0C, 0x0D, 0x20, 0x85, 0xA0, 0x1680,
     0x2000, 0x2001, 0x2002, 0x2003, 0x2004, 0x2005, 0x2006, 0x2007, 0x2008, 0x2009, 0x200A,
     0x2028, 0x2029, 0x202F, 0x205F, 0x3000]"

definition space_encodings :: "string list" where
  "space_encodings = map encoderune White_Space"

fun strip_front :: "string list \<Rightarrow> string \<Rightarrow> string" where
  "strip_front encs [] = []"
| "strip_front encs (c # cs) =
     (case find (HasPrefix (c # cs)) encs of
        None \<Rightarrow> c # cs
      | Some e \<Rightarrow> strip_front encs (drop (length e - 1) cs))"

definition TrimSpace :: "string \<Rightarrow> string" where
  "TrimSpace s = rev (strip_front (map rev space_encodings) (rev (strip_front space_encodings s)))"

section \<open>encoding/base64: StdEncoding.DecodeString\<close>

definition encodeStd :: string where
  "encodeStd = ''ABCDEFGHIJKLMNOPQRSTUVWXYZabcdefghijklmnopqrstuvwxyz0123456789+/''"

definition padChar :: char where
  "padChar = CHR ''=''"

fun index_of :: "char \<Rightarrow> string \<Rightarrow> nat option" where
  "index_of c [] = None"
| "index_of c (x # xs) = (if c = x then Some 0 else map_option Suc (index_of c xs))"

text \<open>The decode map of the encoding: the 6-bit value of an alphabet character.\<close>

definition decodeMap :: "char \<Rightarrow> nat option" where
  "decodeMap c = index_of c encodeStd"

text \<open>
  One quantum: four 6-bit values are packed into 24 bits
  (\<open>val = d0<<18 | d1<<12 | d2<<6 | d3\<close>) and read back as the bytes
  \<open>val>>16\<close>, \<open>val>>8\<close>, \<open>val\<close>.
\<close>

definition quantum_val :: "nat \<Rightarrow> nat \<Rightarrow> nat \<Rightarrow> nat \<Rightarrow> nat" where
  "quantum_val d0 d1 d2 d3 = d0 * 262144 + d1 * 4096 + d2 * 64 + d3"

definition byte0 :: "nat \<Rightarrow> char" where
  "byte0 val = char_of ((val div 65536) mod 256)"

definition byte1 :: "nat \<Rightarrow> char" where
  "byte1 val = char_of ((val div 256) mod 256)"

definition byte2 :: "nat \<Rightarrow> char" where
  "byte2 val = char_of (val mod 256)"

text \<open>
  The quanta of an input without line breaks. Padding is accepted in the last quantum only,
  as \<open>xx==\<close> or \<open>xxx=\<close>; anything after it, a character outside the alphabet, or an
  incomplete last quantum is a \<open>CorruptInputError\<close> (\<open>None\<close>). The encoding is not
  strict: the unused low bits of a padded quantum are not checked.
\<close>

fun decodeQuanta :: "string \<Rightarrow> string option" where
  "decodeQuanta [] = Some []"
| "decodeQuanta (a # b # c # d # rest) =
     (case (decodeMap a, decodeMap b) of
        (Some d0, Some d1) \<Rightarrow>
          if c = padChar then
            (if d = padChar \<and> rest = [] then Some [byte0 (quantum_val d0 d1 0 0)] else None)
          else
            (case decodeMap c of
               None \<Rightarrow> None
             | Some d2 \<Rightarrow>
                 if d = padChar then
                   (if rest = [] then
                      Some [byte0 (quantum_val d0 d1 d2 0), byte1 (quantum_val d0 d1 d2 0)]
                    else None)
                 else
                   (case decodeMap d of
                      None \<Rightarrow> None
                    | Some d3 \<Rightarrow>
                        (case decodeQuanta rest of
                           None \<Rightarrow> None
                         | Some bs \<Rightarrow>
                             Some (byte0 (quantum_val d0 d1 d2 d3) # byte1 (quantum_val d0 d1 d2 d3)
                                   # byte2 (quantum_val d0 d1 d2 d3) # bs))))
      | _ \<Rightarrow> None)"
| "decodeQuanta _ = None"

text \<open>\<open>DecodeString\<close> skips every \<open>\r\<close> and \<open>\n\<close> of its input.\<close>

definition DecodeString :: "string \<Rightarrow> string option" where
  "DecodeString s = decodeQuanta (filter (\<lambda>c. c \<noteq> CHR 0x0A \<and> c \<noteq> CHR 0x0D) s)"

section \<open>Deobfuscate\<close>

text \<open>Step 1, the in-place reversal: \<open>for i := 0; i < n/2; i++ { swap runes[i], runes[n-1-i] }\<close>.\<close>

function reverse_loop :: "nat \<Rightarrow> nat list \<Rightarrow> nat list" where
  "reverse_loop i runes =
     (if i < length runes div 2
      then reverse_loop (i + 1)
             (runes[i := runes ! (length runes - 1 - i), length runes - 1 - i := runes ! i])
      else runes)"
  by pat_completeness auto
termination
  by (relation "measure (\<lambda>(i, runes). length runes div 2 - i)") auto

declare reverse_loop.simps [simp del]

text \<open>Step 2: \<open>for i := 0; i < n; i += 2 { filtered = append(filtered, runes[i]) }\<close>.\<close>

function filter_loop :: "nat \<Rightarrow> nat list \<Rightarrow> nat list \<Rightarrow> nat list" where
  "filter_loop i runes filtered =
     (if i < length runes then filter_loop (i + 2) runes (filtered @ [runes ! i]) else filtered)"
  by pat_completeness auto
termination
  by (relation "measure (\<lambda>(i, runes, filtered). length runes - i)") auto

declare filter_loop.simps [simp del]

definition Deobfuscate :: "string \<Rightarrow> error + string" where
  "Deobfuscate obfCode =
     (let runes = reverse_loop 0 (runes_of obfCode);
          filtered = filter_loop 0 runes [];
          filteredStr = string_of_runes filtered
      in case DecodeString filteredStr of
           None \<Rightarrow> Inl DecodingBase64
         | Some decodedBytes \<Rightarrow> Inr decodedBytes)"

section \<open>Parsed HTML and the goquery selections\<close>

text \<open>
  The pages are parsed by \<open>goquery.NewDocumentFromReader\<close> (the HTML parser of
  \<open>golang.org/x/net/html\<close>), which is outside the repository: the parser is a parameter
  of the model and the program is modelled on the parsed tree. An element has a tag, its
  attributes in order and its children; any node that is neither an element nor a text
  (a comment, a doctype) is \<open>OtherNode\<close>.
\<close>

datatype node = Element string "(string \<times> string) list" "node list" | TextNode string | OtherNode

text \<open>The nodes of a tree in document order, which is the order of a selection.\<close>

fun subtree :: "node \<Rightarrow> node list" where
  "subtree (Element tag attrs children) = Element tag attrs children # concat (map subtree children)"
| "subtree (TextNode t) = [TextNode t]"
| "subtree OtherNode = [OtherNode]"

definition all_nodes :: "node list \<Rightarrow> node list" where
  "all_nodes doc = concat (map subtree doc)"

fun has_tag :: "string \<Rightarrow> node \<Rightarrow> bool" where
  "has_tag tag (Element t _ _) = (t = tag)"
| "has_tag tag _ = False"

text \<open>An attribute selector holds when some attribute of the element has the key and a value
  that satisfies the test.\<close>

fun matchAttribute :: "node \<Rightarrow> string \<Rightarrow> (string \<Rightarrow> bool) \<Rightarrow> bool" where
  "matchAttribute (Element _ attrs _) key f = list_ex (\<lambda>(k, v). k = key \<and> f v) attrs"
| "matchAttribute _ key f = False"

text \<open>\<open>Selection.Attr\<close> reads the first attribute with the key on the first node of the selection.\<close>

fun getAttributeValue :: "string \<Rightarrow> node \<Rightarrow> string option" where
  "getAttributeValue key (Element _ attrs _) = map_option snd (find (\<lambda>(k, v). k = key) attrs)"
| "getAttributeValue key _ = None"

definition Attr :: "node list \<Rightarrow> string \<Rightarrow> string option" where
  "Attr sel key = (case sel of [] \<Rightarrow> None | n # _ \<Rightarrow> getAttributeValue key n)"

text \<open>\<open>Text\<close> of a node: its text nodes joined in document order.\<close>

fun nodeText :: "node \<Rightarrow> string" where
  "nodeText (TextNode t) = t"
| "nodeText (Element _ _ children) = concat (map nodeText children)"
| "nodeText OtherNode = []"

text \<open>The three selectors of the program.\<close>

definition Find_player_iframe :: "node list \<Rightarrow> node list" where
  \<comment> \<open>\<open>iframe#player_iframe\<close>\<close>
  "Find_player_iframe doc =
     filter (\<lambda>n. has_tag ''iframe'' n \<and> matchAttribute n ''id'' (\<lambda>v. v = ''player_iframe''))
       (all_nodes doc)"

definition Find_script :: "node list \<Rightarrow> node list" where
  \<comment> \<open>\<open>script[src*='/sV05kUlNvOdOxvtC/']\<close>\<close>
  "Find_script doc =
     filter (\<lambda>n. has_tag ''script'' n \<and> matchAttribute n ''src'' (\<lambda>v. Contains v ''/sV05kUlNvOdOxvtC/''))
       (all_nodes doc)"

definition Find_hidden_div :: "node list \<Rightarrow> node list" where
  \<comment> \<open>\<open>div[style='display:none;']\<close>\<close>
  "Find_hidden_div doc =
     filter (\<lambda>n. has_tag ''div'' n \<and> matchAttribute n ''style'' (\<lambda>v. v = ''display:none;''))
       (all_nodes doc)"

section \<open>The regular expression of extractProRCPURL\<close>

definition quote :: char where
  "quote = CHR 0x27"

text \<open>
  The pattern of the source is \<open>src: '(/prorcp/[^']+)\<close>: the literal \<open>src: '/prorcp/\<close> (one
  space), then as many characters other than the quote as there are, at least one.
  \<open>match_at\<close> is the capture of a match that starts at the front of the text;
  \<open>FindStringSubmatch\<close> takes the leftmost match.
\<close>

definition prorcp_literal :: string where
  "prorcp_literal = ''src: '' @ [quote] @ ''/prorcp/''"

definition match_at :: "string \<Rightarrow> string option" where
  "match_at s =
     (if HasPrefix s prorcp_literal then
        (let body = takeWhile (\<lambda>c. c \<noteq> quote) (drop (length prorcp_literal) s)
         in if body = [] then None else Some (''/prorcp/'' @ body))
      else None)"

fun FindStringSubmatch :: "string \<Rightarrow> string option" where
  "FindStringSubmatch [] = None"
| "FindStringSubmatch (c # cs) =
     (case match_at (c # cs) of Some cap \<Rightarrow> Some cap | None \<Rightarrow> FindStringSubmatch cs)"

definition extractProRCPURL :: "string \<Rightarrow> error + string" where
  "extractProRCPURL rcpHTML =
     (case FindStringSubmatch rcpHTML of None \<Rightarrow> Inl NoProRCPURL | Some m \<Rightarrow> Inr m)"

section \<open>The transport and the pipeline\<close>

text \<open>
  What lies outside the program is a parameter: whether \<open>http.NewRequest\<close> accepts a URL,
  what the shared client answers to a request (which may depend on the requests sent before),
  the HTML parser, and \<open>url.Parse\<close> with \<open>ResolveReference\<close> and \<open>String\<close>. The state
  threaded through the pipeline is the list of the requests sent so far.
\<close>

record request =
  req_url :: string
  req_referer :: string

datatype reply = NoResponse | Response int "string option"

record 'u env =
  newRequestOK :: "string \<Rightarrow> bool"
  clientDo :: "request list \<Rightarrow> request \<Rightarrow> reply"
  parseHTML :: "string \<Rightarrow> node list option"
  urlParse :: "string \<Rightarrow> 'u option"
  resolveReference :: "'u \<Rightarrow> 'u \<Rightarrow> string"

definition StatusOK :: int where
  "StatusOK = 200"

definition fetchContent ::
  "'u env \<Rightarrow> string \<Rightarrow> string \<Rightarrow> request list \<Rightarrow> (error + string) \<times> request list" where
  "fetchContent E url referer sent =
     (if \<not> newRequestOK E url then (Inl (CreatingRequest url), sent)
      else
        (let req = \<lparr>req_url = url, req_referer = referer\<rparr> in
         case clientDo E sent req of
           NoResponse \<Rightarrow> (Inl (FetchingPage url), sent @ [req])
         | Response status body \<Rightarrow>
             if status \<noteq> StatusOK then (Inl (UnexpectedStatus url status), sent @ [req])
             else
               (case body of
                  None \<Rightarrow> (Inl (ReadingBody url), sent @ [req])
                | Some b \<Rightarrow> (Inr b, sent @ [req]))))"

definition extractRCPURL :: "'u env \<Rightarrow> string \<Rightarrow> error + string" where
  "extractRCPURL E embedHTML =
     (case parseHTML E embedHTML of
        None \<Rightarrow> Inl (ParsingHTML ''rcp-url'')
      | Some doc \<Rightarrow>
          (case Attr (Find_player_iframe doc) ''src'' of
             None \<Rightarrow> Inl NoIframeSrc
           | Some src \<Rightarrow> if src = [] then Inl NoIframeSrc else Inr src))"

text \<open>
  \<open>decodeStreamURL\<close>. Part 1 of the source downloads the script the page names and writes it
  to \<open>scripts/prorcp.js\<close>; every failure there is logged and ignored, so of part 1 only the
  request remains in the model. Part 2 reads the hidden div and part 3 decodes it.
\<close>

definition hiddenDivContent :: "node list \<Rightarrow> error + string" where
  "hiddenDivContent doc =
     (case Find_hidden_div doc of
        [] \<Rightarrow> Inl NoHiddenDiv
      | d # _ \<Rightarrow> Inr (TrimSpace (nodeText d)))"

definition decodeStreamURL ::
  "'u env \<Rightarrow> string \<Rightarrow> request list \<Rightarrow> (error + string) \<times> request list" where
  "decodeStreamURL E proRCPHTML sent =
     (case parseHTML E proRCPHTML of
        None \<Rightarrow> (Inl (ParsingHTML ''hidden-token''), sent)
      | Some doc \<Rightarrow>
          (let sent1 =
                 (case Attr (Find_script doc) ''src'' of
                    None \<Rightarrow> sent
                  | Some src \<Rightarrow>
                      snd (fetchContent E (''https://cloudnestra.com'' @ src) ''https://cloudnestra.com'' sent))
           in case hiddenDivContent doc of
                Inl e \<Rightarrow> (Inl e, sent1)
              | Inr divContent \<Rightarrow>
                  if divContent \<noteq> [] then
                    (case Deobfuscate divContent of
                       Inl e \<Rightarrow> (Inl DeobfuscatingContent, sent1)
                     | Inr decodedURL \<Rightarrow> (Inr decodedURL, sent1))
                  else (Inl MissingComponents, sent1)))"

definition ResolveVariants ::
  "'u env \<Rightarrow> ResolveOptions \<Rightarrow> request list \<Rightarrow> (error + string) \<times> request list" where
  "ResolveVariants E o' sent =
     (case buildEmbedURL o' of
        Inl e \<Rightarrow> (Inl e, sent)
      | Inr embedURL \<Rightarrow>
     (case fetchContent E embedURL [] sent of
        (Inl e, s1) \<Rightarrow> (Inl e, s1)
      | (Inr embedHTML, s1) \<Rightarrow>
     (case extractRCPURL E embedHTML of
        Inl e \<Rightarrow> (Inl e, s1)
      | Inr rcpURL \<Rightarrow>
     (case fetchContent E (''https:'' @ rcpURL) [] s1 of
        (Inl e, s2) \<Rightarrow> (Inl e, s2)
      | (Inr rcpHTML, s2) \<Rightarrow>
     (case extractProRCPURL rcpHTML of
        Inl e \<Rightarrow> (Inl e, s2)
      | Inr proRCPURL \<Rightarrow>
     (case fetchContent E (''https://cloudnestra.com'' @ proRCPURL) ''https://cloudnestra.com'' s2 of
        (Inl e, s3) \<Rightarrow> (Inl e, s3)
      | (Inr proRCPHTML, s3) \<Rightarrow> decodeStreamURL E proRCPHTML s3))))))"

section \<open>The master playlist\<close>

definition parseAttributes :: "string \<Rightarrow> (string \<rightharpoonup> string)" where
  "parseAttributes line =
     fold (\<lambda>part attrs.
             if Contains part ''='' then
               (let kv = TrimSpace part;
                    key = takeWhile (\<lambda>c. c \<noteq> CHR ''='') kv;
                    val = Trim (drop 1 (dropWhile (\<lambda>c. c \<noteq> CHR ''='') kv)) (CHR 0x22)
                in attrs(key \<mapsto> val))
             else attrs)
          (Split line (CHR '',''))
          Map.empty"

text \<open>Reading a key of a Go map that is absent gives the empty string.\<close>

definition map_get :: "(string \<rightharpoonup> string) \<Rightarrow> string \<Rightarrow> string" where
  "map_get m k = (case m k of None \<Rightarrow> [] | Some v \<Rightarrow> v)"

definition resolveRelativeURL :: "'u env \<Rightarrow> string \<Rightarrow> string \<Rightarrow> string" where
  "resolveRelativeURL E baseStr refStr =
     (case urlParse E baseStr of
        None \<Rightarrow> refStr
      | Some base \<Rightarrow>
          (case urlParse E refStr of
             None \<Rightarrow> refStr
           | Some ref \<Rightarrow> resolveReference E base ref))"

text \<open>
  The loop \<open>for i, line := range lines\<close> of \<open>ResolveStreams\<close>: the list is the lines from
  index \<open>i\<close> on, so \<open>lines[i+1]\<close> is the head of the rest, when there is one.
\<close>

fun variants_loop :: "'u env \<Rightarrow> string \<Rightarrow> string list \<Rightarrow> StreamVariant list" where
  "variants_loop E masterURL [] = []"
| "variants_loop E masterURL (l # rest) =
     (let line = TrimSpace l in
        (if HasPrefix line ''#EXT-X-STREAM-INF'' then
           (let attrs = parseAttributes line;
                resolution = map_get attrs ''RESOLUTION'';
                bandwidth = map_get attrs ''BANDWIDTH''
            in case rest of
                 [] \<Rightarrow> []
               | nxt # _ \<Rightarrow>
                   (let urlLine = TrimSpace nxt in
                    if urlLine \<noteq> [] \<and> \<not> HasPrefix urlLine ''#'' then
                      [\<lparr>Resolution = resolution, Bandwidth = bandwidth,
                        URL = resolveRelativeURL E masterURL urlLine\<rparr>]
                    else []))
         else [])
        @ variants_loop E masterURL rest)"

text \<open>The part of \<open>ResolveStreams\<close> that follows the download of the playlist.\<close>

definition parseMasterPlaylist :: "'u env \<Rightarrow> string \<Rightarrow> string \<Rightarrow> error + StreamVariant list" where
  "parseMasterPlaylist E masterURL body =
     (let variants = variants_loop E masterURL (Split body (CHR 0x0A)) in
      if length variants = 0 then Inl (NoStreamVariants masterURL) else Inr variants)"

definition ResolveStreams ::
  "'u env \<Rightarrow> ResolveOptions \<Rightarrow> request list \<Rightarrow> (error + StreamVariant list) \<times> request list" where
  "ResolveStreams E o' sent =
     (case ResolveVariants E o' sent of
        (Inl e, s) \<Rightarrow> (Inl e, s)
      | (Inr masterURL, s) \<Rightarrow>
          if \<not> newRequestOK E masterURL then (Inl (FetchingPage masterURL), s)
          else
            (let req = \<lparr>req_url = masterURL, req_referer = []\<rparr> in
             case clientDo E s req of
               NoResponse \<Rightarrow> (Inl (FetchingPage masterURL), s @ [req])
             | Response status body \<Rightarrow>
                 if status \<noteq> StatusOK then (Inl (UnexpectedStatus masterURL status), s @ [req])
                 else
                   (case body of
                      None \<Rightarrow> (Inl (ReadingBody masterURL), s @ [req])
                    | Some b \<Rightarrow> (parseMasterPlaylist E masterURL b, s @ [req]))))"

section \<open>The wording of the specification\<close>

text \<open>
  The definitions of this section are not translated from the program: they write down what
  the specification says, for the claims that compare the program with it.
\<close>

text \<open>
  The forward obfuscation of decode variant A: base64 with the standard alphabet and padding
  (RFC 4648), a filler character after every character of the encoding, and the reversal of
  the character sequence. The filler of position \<open>i\<close> is \<open>fill i\<close>, an arbitrary rune.
\<close>

definition enc :: "nat \<Rightarrow> char" where
  "enc i = encodeStd ! i"

fun spec_base64_encode :: "string \<Rightarrow> string" where
  "spec_base64_encode [] = []"
| "spec_base64_encode [a] =
     (let val = of_char a * 65536
      in [enc (val div 262144 mod 64), enc (val div 4096 mod 64), padChar, padChar])"
| "spec_base64_encode [a, b] =
     (let val = of_char a * 65536 + of_char b * 256
      in [enc (val div 262144 mod 64), enc (val div 4096 mod 64), enc (val div 64 mod 64), padChar])"
| "spec_base64_encode (a # b # c # rest) =
     (let val = of_char a * 65536 + of_char b * 256 + of_char c
      in enc (val div 262144 mod 64) # enc (val div 4096 mod 64) # enc (val div 64 mod 64)
         # enc (val mod 64) # spec_base64_encode rest)"

fun spec_interleave :: "nat list \<Rightarrow> (nat \<Rightarrow> nat) \<Rightarrow> nat \<Rightarrow> nat list" where
  "spec_interleave [] fill i = []"
| "spec_interleave (c # cs) fill i = c # fill i # spec_interleave cs fill (Suc i)"

definition spec_obfuscate :: "string \<Rightarrow> (nat \<Rightarrow> nat) \<Rightarrow> string" where
  "spec_obfuscate plaintext fill =
     string_of_runes (rev (spec_interleave (map of_char (spec_base64_encode plaintext)) fill 0))"

text \<open>
  The number a decimal numeral denotes, for the \<open>{n}\<close> and \<open>{m}\<close> of the series URL.
\<close>

definition is_digit :: "char \<Rightarrow> bool" where
  "is_digit c = (0x30 \<le> (of_char c :: nat) \<and> (of_char c :: nat) \<le> 0x39)"

definition digit_value :: "char \<Rightarrow> nat" where
  "digit_value c = of_char c - 0x30"

definition decimal_value :: "string \<Rightarrow> nat" where
  "decimal_value s = foldl (\<lambda>acc c. 10 * acc + digit_value c) 0 s"

text \<open>
  A syntactically valid absolute URL starts with a scheme: a letter, then letters, digits,
  \<open>+\<close>, \<open>-\<close> or \<open>.\<close>, up to a colon (RFC 3986). The predicate asks for no more than that.
\<close>

definition is_alpha :: "char \<Rightarrow> bool" where
  "is_alpha c = ((0x41 \<le> (of_char c :: nat) \<and> (of_char c :: nat) \<le> 0x5A)
                 \<or> (0x61 \<le> (of_char c :: nat) \<and> (of_char c :: nat) \<le> 0x7A))"

definition is_scheme_char :: "char \<Rightarrow> bool" where
  "is_scheme_char c = (is_alpha c \<or> (0x30 \<le> (of_char c :: nat) \<and> (of_char c :: nat) \<le> 0x39)
                        \<or> c = CHR ''+'' \<or> c = CHR ''-'' \<or> c = CHR ''.'')"

definition spec_absolute_URL :: "string \<Rightarrow> bool" where
  "spec_absolute_URL s =
     (case takeWhile (\<lambda>c. c \<noteq> CHR '':'') s of
        [] \<Rightarrow> False
      | c # cs \<Rightarrow> is_alpha c \<and> list_all is_scheme_char cs \<and> Suc (length cs) < length s)"

text \<open>
  The URL line of a stream-info tag, as the specification words it: the next line after the
  tag that is neither blank nor starts with \<open>#\<close>.
\<close>

definition spec_url_line :: "string list \<Rightarrow> string option" where
  "spec_url_line following =
     (case dropWhile (\<lambda>l. TrimSpace l = [] \<or> HasPrefix (TrimSpace l) ''#'') following of
        [] \<Rightarrow> None
      | l # _ \<Rightarrow> Some (TrimSpace l))"

text \<open>
  The pattern of the specification for the stage-2 URL, \<open>src:\s*'(/prorcp/[^']+)'\<close>: any
  run of white space (\<open>\s\<close> is tab, line feed, form feed, carriage return or space) after
  \<open>src:\<close>, and a closing quote after the capture.
\<close>

definition is_regex_space :: "char \<Rightarrow> bool" where
  "is_regex_space c = (c = CHR 0x09 \<or> c = CHR 0x0A \<or> c = CHR 0x0C \<or> c = CHR 0x0D \<or> c = CHR 0x20)"

definition spec_match_at :: "string \<Rightarrow> string option" where
  "spec_match_at s =
     (if HasPrefix s ''src:'' then
        (let r = dropWhile is_regex_space (drop 4 s) in
         if HasPrefix r ([quote] @ ''/prorcp/'') then
           (let body = takeWhile (\<lambda>c. c \<noteq> quote) (drop 9 r);
                after = dropWhile (\<lambda>c. c \<noteq> quote) (drop 9 r)
            in if body \<noteq> [] \<and> after \<noteq> [] then Some (''/prorcp/'' @ body) else None)
         else None)
      else None)"

fun spec_first_capture :: "string \<Rightarrow> string option" where
  "spec_first_capture [] = None"
| "spec_first_capture (c # cs) =
     (case spec_match_at (c # cs) of Some cap \<Rightarrow> Some cap | None \<Rightarrow> spec_first_capture cs)"

section \<open>Example environments\<close>

text \<open>An upstream that answers every request with the same status and an empty body.\<close>

definition env_status :: "int \<Rightarrow> unit env" where
  "env_status st =
     \<lparr>newRequestOK = (\<lambda>url. True),
      clientDo = (\<lambda>sent req. Response st (Some [])),
      parseHTML = (\<lambda>html. None),
      urlParse = (\<lambda>s. None),
      resolveReference = (\<lambda>base ref. [])\<rparr>"

text \<open>An environment whose parser returns the given tree for every page.\<close>

definition env_page :: "node list \<Rightarrow> unit env" where
  "env_page doc =
     \<lparr>newRequestOK = (\<lambda>url. True),
      clientDo = (\<lambda>sent req. Response 404 None),
      parseHTML = (\<lambda>html. Some doc),
      urlParse = (\<lambda>s. None),
      resolveReference = (\<lambda>base ref. [])\<rparr>"

text \<open>
  An upstream that serves one movie. The entry page holds the player iframe, the stage-1 page
  the script literal, the stage-2 page a script reference and the hidden div, whose text is
  the obfuscated manifest URL between white space; the manifest URL is answered with the
  playlist given as parameter (\<open>demo_playlist\<close> is the playlist of the specification's
  example). Every other request is answered with 404. The parser maps the
  pages to their trees; \<open>url.Parse\<close> refuses a text with the invalid escape \<open>%zz\<close>, and
  references are resolved against the directory of the base, which is what the standard
  resolution does for the plain relative paths of the example.
\<close>

definition demo_request :: ResolveOptions where
  "demo_request = \<lparr>IMDBID = ''tt0137523'', Type = ''movie'', Season = 0, Episode = 0\<rparr>"

definition demo_entry_URL :: string where
  "demo_entry_URL = ''https://vidsrc-embed.ru/embed/movie?imdb=tt0137523''"

definition demo_master :: string where
  "demo_master = ''https://cdn.example.com/movie/master.m3u8''"

definition demo_token :: string where
  "demo_token = spec_obfuscate demo_master (\<lambda>i. 0x78)"

definition demo_embed_html :: string where
  "demo_embed_html = ''<iframe id=player_iframe src=//cloudnestra.com/rcp/abc></iframe>''"

definition demo_embed_doc :: "node list" where
  "demo_embed_doc =
     [Element ''html'' []
        [Element ''head'' [] [],
         Element ''body'' []
           [Element ''iframe'' [(''id'', ''player_iframe''), (''src'', ''//cloudnestra.com/rcp/abc'')] []]]]"

definition demo_rcp_html :: string where
  "demo_rcp_html = ''<script>$(<iframe>, { id: player_iframe, '' @ prorcp_literal @ ''xyz''
                     @ [quote] @ '', frameborder: 0 })</script>''"

definition demo_prorcp_html :: string where
  "demo_prorcp_html = ''<script src=/sV05kUlNvOdOxvtC/a.js></script><div id=xTyBxQyGTA style=display:none;> ''
                        @ demo_token @ [CHR 0x0A] @ ''</div>''"

definition demo_prorcp_doc :: "node list" where
  "demo_prorcp_doc =
     [Element ''html'' []
        [Element ''head'' [] [Element ''script'' [(''src'', ''/sV05kUlNvOdOxvtC/a.js'')] []],
         Element ''body'' []
           [Element ''div'' [(''id'', ''xTyBxQyGTA''), (''style'', ''display:none;'')]
              [TextNode ('' '' @ demo_token @ [CHR 0x0A])]]]]"

definition demo_playlist :: string where
  "demo_playlist =
     ''#EXTM3U'' @ [CHR 0x0A] @
     ''#EXT-X-STREAM-INF:BANDWIDTH=1280000,RESOLUTION=720x480'' @ [CHR 0x0A] @
     ''720p/index.m3u8'' @ [CHR 0x0A] @
     ''#EXT-X-STREAM-INF:BANDWIDTH=640000,RESOLUTION=320x240'' @ [CHR 0x0A] @
     ''320p/index.m3u8''"

definition demo_clientDo :: "string \<Rightarrow> request list \<Rightarrow> request \<Rightarrow> reply" where
  "demo_clientDo playlist sent req =
     (if req = \<lparr>req_url = demo_entry_URL, req_referer = []\<rparr>
        then Response 200 (Some demo_embed_html)
      else if req = \<lparr>req_url = ''https://cloudnestra.com/rcp/abc'', req_referer = []\<rparr>
        then Response 200 (Some demo_rcp_html)
      else if req = \<lparr>req_url = ''https://cloudnestra.com/prorcp/xyz'',
                        req_referer = ''https://cloudnestra.com''\<rparr>
        then Response 200 (Some demo_prorcp_html)
      else if req = \<lparr>req_url = demo_master, req_referer = []\<rparr>
        then Response 200 (Some playlist)
      else Response 404 None)"

definition demo_parseHTML :: "string \<Rightarrow> node list option" where
  "demo_parseHTML html =
     (if html = demo_embed_html then Some demo_embed_doc
      else if html = demo_prorcp_html then Some demo_prorcp_doc
      else Some [])"

definition demo_env :: "string \<Rightarrow> string env" where
  "demo_env playlist =
     \<lparr>newRequestOK = (\<lambda>url. True),
      clientDo = demo_clientDo playlist,
      parseHTML = demo_parseHTML,
      urlParse = (\<lambda>s. if Contains s ''%zz'' then None else Some s),
      resolveReference = (\<lambda>base ref. rev (dropWhile (\<lambda>c. c \<noteq> CHR ''/'') (rev base)) @ ref)\<rparr>"

text \<open>The same upstream, except that every request to one URL is answered with 404.\<close>

definition demo_failing :: "string \<Rightarrow> string env" where
  "demo_failing bad =
     (demo_env demo_playlist)
       \<lparr>clientDo := (\<lambda>sent req. if req_url req = bad then Response 404 None
                                   else demo_clientDo demo_playlist sent req)\<rparr>"

section \<open>Auxiliary notions for the proofs\<close>

text \<open>
  What a rune becomes when it is written by \<open>string(runes)\<close> and read back by
  \<open>[]rune(s)\<close>: a surrogate or a value beyond \<open>U+10FFFF\<close> comes back as \<open>RuneError\<close>.
\<close>

definition sanitize :: "nat \<Rightarrow> nat" where
  "sanitize r = (if 0x10FFFF < r \<or> (0xD800 \<le> r \<and> r \<le> 0xDFFF) then RuneError else r)"

text \<open>Every second element of a list, from the first on: what step 2 of \<open>Deobfuscate\<close> keeps.\<close>

fun every_other :: "'a list \<Rightarrow> 'a list" where
  "every_other [] = []"
| "every_other [x] = [x]"
| "every_other (x # y # zs) = x # every_other zs"

text \<open>A printable ASCII character other than the space.\<close>

definition graphic :: "char \<Rightarrow> bool" where
  "graphic c = (0x20 < (of_char c :: nat) \<and> (of_char c :: nat) < 0x7F)"

lemma digits_of_small: "n < 10 \<Longrightarrow> digits_of n = [digit_char n]"
  by (simp add: digits_of.simps)

lemma Movie_neq_TV: "Movie \<noteq> TV"
  by (simp add: Movie_def TV_def)

section \<open>Claims about the entry URL\<close>

lemma digit_char_props:
  assumes "d < 10"
  shows "is_digit (digit_char d) \<and> digit_value (digit_char d) = d"
proof -
  have "d = 0 \<or> d = 1 \<or> d = 2 \<or> d = 3 \<or> d = 4 \<or> d = 5 \<or> d = 6 \<or> d = 7 \<or> d = 8 \<or> d = 9"
    using assms by arith
  then show ?thesis
    by (elim disjE) (simp_all add: digit_char_def is_digit_def digit_value_def)
qed

lemma decimal_value_snoc: "decimal_value (xs @ [c]) = 10 * decimal_value xs + digit_value c"
  by (simp add: decimal_value_def)

lemma digits_of_nonempty: "digits_of n \<noteq> []"
  by (subst digits_of.simps) simp

lemma digits_of_digits: "list_all is_digit (digits_of n)"
proof (induction n rule: digits_of.induct)
  case (1 n)
  show ?case
  proof (cases "n < 10")
    case True
    then show ?thesis using digit_char_props[of n] by (simp add: digits_of.simps[of n])
  next
    case False
    have "n mod 10 < 10" by simp
    then have "is_digit (digit_char (n mod 10))" using digit_char_props by blast
    then show ?thesis using False "1.IH" by (simp add: digits_of.simps[of n])
  qed
qed

lemma decimal_value_digits_of: "decimal_value (digits_of n) = n"
proof (induction n rule: digits_of.induct)
  case (1 n)
  show ?case
  proof (cases "n < 10")
    case True
    then show ?thesis using digit_char_props[of n]
      by (simp add: digits_of.simps[of n] decimal_value_def)
  next
    case False
    have "n mod 10 < 10" by simp
    then have "digit_value (digit_char (n mod 10)) = n mod 10" using digit_char_props by blast
    then show ?thesis using False "1.IH"
      by (simp add: digits_of.simps[of n] decimal_value_snoc)
  qed
qed

lemma digits_of_no_leading_zero: "0 < n \<Longrightarrow> hd (digits_of n) \<noteq> CHR ''0''"
proof (induction n rule: digits_of.induct)
  case (1 n)
  show ?case
  proof (cases "n < 10")
    case True
    have "digit_value (digit_char n) = n" using True digit_char_props by blast
    moreover have "digit_value (CHR ''0'') = 0" by (simp add: digit_value_def)
    ultimately have "digit_char n \<noteq> CHR ''0''" using "1.prems" by auto
    then show ?thesis using True by (simp add: digits_of.simps[of n])
  next
    case False
    then have "0 < n div 10" by simp
    then have "hd (digits_of (n div 10)) \<noteq> CHR ''0''" using "1.IH" False by blast
    then show ?thesis using False digits_of_nonempty[of "n div 10"]
      by (simp add: digits_of.simps[of n])
  qed
qed

lemma fmt_d_positive:
  assumes "0 < i"
  shows "list_all is_digit (fmt_d i)" "hd (fmt_d i) \<noteq> CHR ''0''" "int (decimal_value (fmt_d i)) = i"
  using assms digits_of_digits[of "nat i"] digits_of_no_leading_zero[of "nat i"]
    decimal_value_digits_of[of "nat i"]
  by (simp_all add: fmt_d_def)

lemma fmt_d_examples: "fmt_d 1 = ''1''" "fmt_d 2 = ''2''" "fmt_d 12 = ''12''" "fmt_d 345 = ''345''"
  by (simp_all add: fmt_d_def digits_of.simps[of 12] digits_of.simps[of 345] digits_of.simps[of 34]
      digits_of_small digit_char_def)

lemma decimal_value_examples: "decimal_value ''12'' = 12" "decimal_value ''345'' = 345"
  by (simp_all add: decimal_value_def digit_value_def)

text \<open>
  C5: for every valid movie request (non-empty identifier, movie kind) \<open>buildEmbedURL\<close>
  returns exactly \<open>{base}/embed/movie?imdb={id}\<close>, the identifier copied unchanged; for
  every valid series request (non-empty identifier, positive season and episode) it returns
  exactly \<open>{base}/embed/tv?imdb={id}&season={n}&episode={m}\<close>, where \<open>{n}\<close> and \<open>{m}\<close>
  are the decimal numerals of season and episode: digits only, no leading zero, denoting
  the number.
\<close>

theorem buildEmbedURL_valid:
  "(Type o' = Movie \<and> IMDBID o' \<noteq> [] \<longrightarrow>
      buildEmbedURL o' = Inr (vidsrcBase @ ''/embed/movie?imdb='' @ IMDBID o')) \<and>
   (Type o' = TV \<and> IMDBID o' \<noteq> [] \<and> 0 < Season o' \<and> 0 < Episode o' \<longrightarrow>
      buildEmbedURL o' = Inr (vidsrcBase @ ''/embed/tv?imdb='' @ IMDBID o'
          @ ''&season='' @ fmt_d (Season o') @ ''&episode='' @ fmt_d (Episode o'))
      \<and> list_all is_digit (fmt_d (Season o')) \<and> hd (fmt_d (Season o')) \<noteq> CHR ''0''
      \<and> int (decimal_value (fmt_d (Season o'))) = Season o'
      \<and> list_all is_digit (fmt_d (Episode o')) \<and> hd (fmt_d (Episode o')) \<noteq> CHR ''0''
      \<and> int (decimal_value (fmt_d (Episode o'))) = Episode o')"
  using Movie_neq_TV by (auto simp: buildEmbedURL_def fmt_d_positive)

theorem buildEmbedURL_valid_witness:
  "buildEmbedURL \<lparr>IMDBID = ''tt0137523'', Type = ''movie'', Season = 0, Episode = 0\<rparr>
     = Inr ''https://vidsrc-embed.ru/embed/movie?imdb=tt0137523'' \<and>
   buildEmbedURL \<lparr>IMDBID = ''tt0944947'', Type = ''tv'', Season = 1, Episode = 2\<rparr>
     = Inr ''https://vidsrc-embed.ru/embed/tv?imdb=tt0944947&season=1&episode=2'' \<and>
   buildEmbedURL \<lparr>IMDBID = ''tt0944947'', Type = ''tv'', Season = 12, Episode = 345\<rparr>
     = Inr ''https://vidsrc-embed.ru/embed/tv?imdb=tt0944947&season=12&episode=345'' \<and>
   decimal_value ''12'' = 12 \<and> decimal_value ''345'' = 345"
  using buildEmbedURL_valid [of "\<lparr>IMDBID = ''tt0137523'', Type = ''movie'', Season = 0, Episode = 0\<rparr>"]
    buildEmbedURL_valid [of "\<lparr>IMDBID = ''tt0944947'', Type = ''tv'', Season = 1, Episode = 2\<rparr>"]
    buildEmbedURL_valid [of "\<lparr>IMDBID = ''tt0944947'', Type = ''tv'', Season = 12, Episode = 345\<rparr>"]
  by (simp add: Movie_def TV_def vidsrcBase_def fmt_d_examples decimal_value_examples)

text \<open>
  C6 (as amended): for every series request (kind \<open>tv\<close>) \<open>buildEmbedURL\<close> succeeds exactly
  when the identifier is non-empty and season and episode are both different from zero, zero
  being how an omitted value reaches the program; every failure of a series request is an
  \<open>InvalidRequest\<close>, and a kind other than \<open>movie\<close> and \<open>tv\<close> is an
  \<open>UnsupportedMediaKind\<close>.
\<close>

theorem buildEmbedURL_series:
  "(Type o' = TV \<longrightarrow>
      (\<not> isl (buildEmbedURL o') \<longleftrightarrow> IMDBID o' \<noteq> [] \<and> Season o' \<noteq> 0 \<and> Episode o' \<noteq> 0) \<and>
      (isl (buildEmbedURL o') \<longrightarrow> kind_of (projl (buildEmbedURL o')) = InvalidRequest)) \<and>
   (Type o' \<noteq> Movie \<and> Type o' \<noteq> TV \<longrightarrow>
      buildEmbedURL o' = Inl (UnsupportedMediaType (Type o') (IMDBID o')) \<and>
      kind_of (projl (buildEmbedURL o')) = UnsupportedMediaKind)"
  using Movie_neq_TV by (auto simp: buildEmbedURL_def)

theorem buildEmbedURL_series_witness:
  "buildEmbedURL \<lparr>IMDBID = ''tt0944947'', Type = ''tv'', Season = 1, Episode = 2\<rparr>
     = Inr ''https://vidsrc-embed.ru/embed/tv?imdb=tt0944947&season=1&episode=2'' \<and>
   kind_of (projl (buildEmbedURL \<lparr>IMDBID = ''tt0944947'', Type = ''tv'', Season = 1, Episode = 0\<rparr>))
     = InvalidRequest \<and>
   buildEmbedURL \<lparr>IMDBID = ''tt0944947'', Type = ''series'', Season = 1, Episode = 2\<rparr>
     = Inl (UnsupportedMediaType ''series'' ''tt0944947'')"
  using buildEmbedURL_series [of "\<lparr>IMDBID = ''tt0944947'', Type = ''tv'', Season = 1, Episode = 2\<rparr>"]
    buildEmbedURL_series [of "\<lparr>IMDBID = ''tt0944947'', Type = ''tv'', Season = 1, Episode = 0\<rparr>"]
    buildEmbedURL_series [of "\<lparr>IMDBID = ''tt0944947'', Type = ''series'', Season = 1, Episode = 2\<rparr>"]
  by (simp add: Movie_def TV_def buildEmbedURL_def vidsrcBase_def fmt_d_def digits_of_small digit_char_def)

text \<open>
  The claim as stated asks for a positive season and episode; a negative season is accepted.
\<close>

theorem buildEmbedURL_negative_season:
  "\<not> 0 < Season \<lparr>IMDBID = ''tt0944947'', Type = ''tv'', Season = - 1, Episode = 2\<rparr> \<and>
   buildEmbedURL \<lparr>IMDBID = ''tt0944947'', Type = ''tv'', Season = - 1, Episode = 2\<rparr>
     = Inr ''https://vidsrc-embed.ru/embed/tv?imdb=tt0944947&season=-1&episode=2''"
  by (simp add: Movie_def TV_def buildEmbedURL_def vidsrcBase_def fmt_d_def digits_of_small digit_char_def)

section \<open>The stage-2 URL\<close>

lemma HasPrefix_iff: "HasPrefix s p \<longleftrightarrow> (\<exists>t. s = p @ t)"
  by (induction s p rule: HasPrefix.induct) auto

lemma match_at_Some_iff:
  "match_at s = Some cap \<longleftrightarrow>
     (\<exists>body post. s = prorcp_literal @ body @ post \<and> body \<noteq> [] \<and> quote \<notin> set body
        \<and> (post = [] \<or> hd post = quote) \<and> cap = ''/prorcp/'' @ body)"
proof
  assume "match_at s = Some cap"
  then obtain t where s: "s = prorcp_literal @ t" and b: "takeWhile (\<lambda>c. c \<noteq> quote) t \<noteq> []"
    and cap: "cap = ''/prorcp/'' @ takeWhile (\<lambda>c. c \<noteq> quote) t"
    by (auto simp: match_at_def Let_def HasPrefix_iff split: if_splits)
  let ?body = "takeWhile (\<lambda>c. c \<noteq> quote) t" and ?post = "dropWhile (\<lambda>c. c \<noteq> quote) t"
  have "s = prorcp_literal @ ?body @ ?post" using s by simp
  moreover have "quote \<notin> set ?body" by (auto dest: set_takeWhileD)
  moreover have "?post = [] \<or> hd ?post = quote"
    using hd_dropWhile[of "\<lambda>c. c \<noteq> quote" t] by auto
  ultimately show "\<exists>body post. s = prorcp_literal @ body @ post \<and> body \<noteq> [] \<and> quote \<notin> set body
        \<and> (post = [] \<or> hd post = quote) \<and> cap = ''/prorcp/'' @ body"
    using b cap by blast
next
  assume "\<exists>body post. s = prorcp_literal @ body @ post \<and> body \<noteq> [] \<and> quote \<notin> set body
        \<and> (post = [] \<or> hd post = quote) \<and> cap = ''/prorcp/'' @ body"
  then obtain body post where s: "s = prorcp_literal @ body @ post"
    and b: "body \<noteq> []" "quote \<notin> set body"
    and p: "post = [] \<or> hd post = quote" and cap: "cap = ''/prorcp/'' @ body" by blast
  have nq: "\<And>x. x \<in> set body \<Longrightarrow> x \<noteq> quote" using b by auto
  have "takeWhile (\<lambda>c. c \<noteq> quote) post = []" using p by (cases post) auto
  then have tw: "takeWhile (\<lambda>c. c \<noteq> quote) (body @ post) = body"
    using takeWhile_append2[of body "\<lambda>c. c \<noteq> quote" post] nq by simp
  have "HasPrefix s prorcp_literal" using s by (simp add: HasPrefix_iff)
  moreover have "drop (length prorcp_literal) s = body @ post" using s by simp
  ultimately show "match_at s = Some cap" using tw b cap
    by (simp add: match_at_def Let_def)
qed

lemma match_at_None_iff:
  "match_at s = None \<longleftrightarrow> \<not> (\<exists>c post. s = prorcp_literal @ c # post \<and> c \<noteq> quote)"
proof -
  have "match_at s \<noteq> None \<longleftrightarrow> (\<exists>c post. s = prorcp_literal @ c # post \<and> c \<noteq> quote)"
  proof
    assume "match_at s \<noteq> None"
    then obtain t where s: "s = prorcp_literal @ t" and b: "takeWhile (\<lambda>c. c \<noteq> quote) t \<noteq> []"
      by (auto simp: match_at_def Let_def HasPrefix_iff split: if_splits)
    then show "\<exists>c post. s = prorcp_literal @ c # post \<and> c \<noteq> quote"
      by (cases t) (auto split: if_splits)
  next
    assume "\<exists>c post. s = prorcp_literal @ c # post \<and> c \<noteq> quote"
    then obtain c post where s: "s = prorcp_literal @ c # post" and c: "c \<noteq> quote" by blast
    have "HasPrefix s prorcp_literal" using s by (simp add: HasPrefix_iff)
    moreover have "drop (length prorcp_literal) s = c # post" using s by simp
    ultimately show "match_at s \<noteq> None" using c by (simp add: match_at_def Let_def)
  qed
  then show ?thesis by blast
qed

lemma match_at_Nil: "match_at [] = None"
  by (simp add: match_at_def prorcp_literal_def)

lemma FindStringSubmatch_None_iff:
  "FindStringSubmatch s = None \<longleftrightarrow> (\<forall>pre t. s = pre @ t \<longrightarrow> match_at t = None)"
proof (induction s)
  case Nil
  show ?case by (simp add: match_at_Nil)
next
  case (Cons c cs)
  show ?case
  proof
    assume a: "FindStringSubmatch (c # cs) = None"
    then have m: "match_at (c # cs) = None" and r: "FindStringSubmatch cs = None"
      by (auto split: option.splits)
    show "\<forall>pre t. c # cs = pre @ t \<longrightarrow> match_at t = None"
    proof (intro allI impI)
      fix pre t assume e: "c # cs = pre @ t"
      show "match_at t = None"
      proof (cases pre)
        case Nil then show ?thesis using e m by simp
      next
        case (Cons p ps)
        then have "cs = ps @ t" using e by simp
        then show ?thesis using r Cons.IH by blast
      qed
    qed
  next
    assume a: "\<forall>pre t. c # cs = pre @ t \<longrightarrow> match_at t = None"
    then have m: "match_at (c # cs) = None" by (metis append_Nil)
    have "\<forall>pre t. cs = pre @ t \<longrightarrow> match_at t = None"
      using a by (metis append_Cons)
    then have "FindStringSubmatch cs = None" using Cons.IH by blast
    then show "FindStringSubmatch (c # cs) = None" using m by simp
  qed
qed

lemma FindStringSubmatch_leftmost:
  "match_at t = Some cap \<Longrightarrow>
   (\<forall>pre' t'. pre @ t = pre' @ t' \<and> length pre' < length pre \<longrightarrow> match_at t' = None) \<Longrightarrow>
   FindStringSubmatch (pre @ t) = Some cap"
proof (induction pre)
  case Nil
  then show ?case by (cases t) (auto simp: match_at_Nil)
next
  case (Cons p ps)
  have "match_at ((p # ps) @ t) = None"
    using Cons.prems(2)[rule_format, of "[]" "(p # ps) @ t"] by simp
  moreover have "\<forall>pre' t'. ps @ t = pre' @ t' \<and> length pre' < length ps \<longrightarrow> match_at t' = None"
  proof (intro allI impI)
    fix pre' t' assume "ps @ t = pre' @ t' \<and> length pre' < length ps"
    then have "(p # ps) @ t = (p # pre') @ t' \<and> length (p # pre') < length (p # ps)" by simp
    then show "match_at t' = None" using Cons.prems(2) by blast
  qed
  ultimately show ?case using Cons.IH[OF Cons.prems(1)] by simp
qed

text \<open>
  C7 (as amended): \<open>extractProRCPURL\<close> returns the first capture of the pattern
  \<open>src: '(/prorcp/[^']+)\<close> over the raw page text: the literal \<open>src: '/prorcp/\<close> with
  exactly one space, followed by the longest non-empty run of characters other than the
  quote, a closing quote not being required. It fails, with the error of stage
  \<open>prorcp-url\<close>, exactly when the text has no occurrence of the literal followed by a
  character other than the quote, and it fails in no other way.
\<close>

theorem extractProRCPURL_pattern:
  "(extractProRCPURL html = Inl NoProRCPURL \<longleftrightarrow>
      \<not> (\<exists>pre c post. html = pre @ prorcp_literal @ c # post \<and> c \<noteq> quote)) \<and>
   (html = pre @ prorcp_literal @ body @ post \<and> body \<noteq> [] \<and> quote \<notin> set body
      \<and> (post = [] \<or> hd post = quote)
      \<and> (\<forall>pre' c post'. html = pre' @ prorcp_literal @ c # post' \<and> c \<noteq> quote
            \<longrightarrow> length pre \<le> length pre') \<longrightarrow>
      extractProRCPURL html = Inr (''/prorcp/'' @ body)) \<and>
   (isl (extractProRCPURL html) \<longrightarrow>
      extractProRCPURL html = Inl NoProRCPURL \<and> kind_of NoProRCPURL = ExtractionFailed ''prorcp-url'')"
proof (intro conjI impI)
  have "FindStringSubmatch html = None \<longleftrightarrow>
      \<not> (\<exists>pre c post. html = pre @ prorcp_literal @ c # post \<and> c \<noteq> quote)"
    unfolding FindStringSubmatch_None_iff match_at_None_iff by blast
  then show "extractProRCPURL html = Inl NoProRCPURL \<longleftrightarrow>
      \<not> (\<exists>pre c post. html = pre @ prorcp_literal @ c # post \<and> c \<noteq> quote)"
    by (cases "FindStringSubmatch html") (simp_all add: extractProRCPURL_def)
next
  assume a: "html = pre @ prorcp_literal @ body @ post \<and> body \<noteq> [] \<and> quote \<notin> set body
      \<and> (post = [] \<or> hd post = quote)
      \<and> (\<forall>pre' c post'. html = pre' @ prorcp_literal @ c # post' \<and> c \<noteq> quote
            \<longrightarrow> length pre \<le> length pre')"
  let ?t = "prorcp_literal @ body @ post"
  have m: "match_at ?t = Some (''/prorcp/'' @ body)"
    using a match_at_Some_iff[of ?t "''/prorcp/'' @ body"] by blast
  have "\<forall>pre' t'. pre @ ?t = pre' @ t' \<and> length pre' < length pre \<longrightarrow> match_at t' = None"
  proof (intro allI impI)
    fix pre' t' assume b: "pre @ ?t = pre' @ t' \<and> length pre' < length pre"
    show "match_at t' = None"
    proof (rule ccontr)
      assume "match_at t' \<noteq> None"
      then have "\<exists>c post'. t' = prorcp_literal @ c # post' \<and> c \<noteq> quote"
        by (simp add: match_at_None_iff)
      then obtain c post' where "t' = prorcp_literal @ c # post'" "c \<noteq> quote"
        by (elim exE conjE)
      then have "html = pre' @ prorcp_literal @ c # post' \<and> c \<noteq> quote" using a b by simp
      then have "length pre \<le> length pre'" using a by blast
      then show False using b by simp
    qed
  qed
  then have "FindStringSubmatch (pre @ ?t) = Some (''/prorcp/'' @ body)"
    using FindStringSubmatch_leftmost[OF m] by blast
  then show "extractProRCPURL html = Inr (''/prorcp/'' @ body)"
    using a by (simp add: extractProRCPURL_def)
next
  assume "isl (extractProRCPURL html)"
  then show "extractProRCPURL html = Inl NoProRCPURL"
    by (auto simp: extractProRCPURL_def split: option.splits)
next
  show "kind_of NoProRCPURL = ExtractionFailed ''prorcp-url''" by simp
qed

theorem extractProRCPURL_pattern_witness:
  "extractProRCPURL (''{'' @ prorcp_literal @ ''abc'' @ [quote, CHR '','']) = Inr ''/prorcp/abc'' \<and>
   extractProRCPURL ''<html></html>'' = Inl NoProRCPURL"
proof -
  let ?html = "''{'' @ prorcp_literal @ ''abc'' @ [quote, CHR '','']"
  have left: "\<forall>pre' c post'. ?html = pre' @ prorcp_literal @ c # post' \<and> c \<noteq> quote
            \<longrightarrow> length ''{'' \<le> length pre'"
  proof (intro allI impI)
    fix pre' c post'
    assume "?html = pre' @ prorcp_literal @ c # post' \<and> c \<noteq> quote"
    then have "pre' \<noteq> []" by (auto simp: prorcp_literal_def)
    then show "length ''{'' \<le> length pre'" by (cases pre') auto
  qed
  have 1: "extractProRCPURL ?html = Inr ''/prorcp/abc''"
    using extractProRCPURL_pattern [of ?html "''{''" "''abc''" "[quote, CHR '','']"] left
    by (simp add: quote_def)
  have none: "\<not> (\<exists>pre c post. ''<html></html>'' = pre @ prorcp_literal @ c # post \<and> c \<noteq> quote)"
  proof
    assume "\<exists>pre c post. ''<html></html>'' = pre @ prorcp_literal @ c # post \<and> c \<noteq> quote"
    then obtain pre c post where "''<html></html>'' = pre @ prorcp_literal @ c # post" by blast
    then have "quote \<in> set ''<html></html>''"
      by (metis in_set_conv_decomp append.assoc append_Cons prorcp_literal_def)
    then show False by (simp add: quote_def)
  qed
  have 2: "extractProRCPURL ''<html></html>'' = Inl NoProRCPURL"
    using extractProRCPURL_pattern [of "''<html></html>''"] none by blast
  show ?thesis using 1 2 by simp
qed

text \<open>
  The claim as stated uses the pattern \<open>src:\s*'(/prorcp/[^']+)'\<close>. On a page with no space
  after \<open>src:\<close> that pattern matches, and the program reports that no URL was found.
\<close>

theorem extractProRCPURL_needs_one_space:
  "spec_first_capture (''src:'' @ [quote] @ ''/prorcp/abc'' @ [quote]) = Some ''/prorcp/abc'' \<and>
   extractProRCPURL (''src:'' @ [quote] @ ''/prorcp/abc'' @ [quote]) = Inl NoProRCPURL"
  by (simp add: spec_match_at_def extractProRCPURL_def match_at_def prorcp_literal_def quote_def
      is_regex_space_def)

section \<open>UTF-8 round trip\<close>

lemma of_char_char_of_nat: "n < 256 \<Longrightarrow> (of_char (char_of (n::nat)) :: nat) = n"
  by (simp add: of_char_of)

lemma mod64_add128: "(128 + y mod 64) mod 64 = (y mod 64 :: nat)"
  using mod_mult_self4[of 64 2 "y mod 64"] by simp

lemma mod32_add192: "q < 32 \<Longrightarrow> (192 + q) mod 32 = (q::nat)"
  using mod_mult_self4[of 32 6 q] by simp

lemma mod16_add224: "q < 16 \<Longrightarrow> (224 + q) mod 16 = (q::nat)"
  using mod_mult_self4[of 16 14 q] by simp

lemma mod8_add240: "q < 8 \<Longrightarrow> (240 + q) mod 8 = (q::nat)"
  using mod_mult_self4[of 8 30 q] by simp

lemma split2: "r div 64 * 64 + r mod 64 = (r::nat)"
  by simp

lemma lin3: "q = a * 64 + b \<Longrightarrow> r = q * 64 + c \<Longrightarrow> a * 4096 + b * 64 + c = (r::nat)"
  by simp

lemma split3: "r div 4096 * 4096 + (r div 64) mod 64 * 64 + r mod 64 = (r::nat)"
proof -
  have h: "r div 4096 = r div 64 div 64" by (simp add: div_mult2_eq[symmetric])
  have "r div 64 div 64 * 4096 + (r div 64) mod 64 * 64 + r mod 64 = r"
    by (rule lin3[of "r div 64"]) simp_all
  then show ?thesis using h by simp
qed

lemma lin4: "q = a * 64 + b \<Longrightarrow> a * 262144 + b * 4096 = q * (4096::nat)"
  by simp

lemma split4:
  "r div 262144 * 262144 + (r div 4096) mod 64 * 4096 + (r div 64) mod 64 * 64 + r mod 64 = (r::nat)"
proof -
  have h: "r div 262144 = r div 4096 div 64" by (simp add: div_mult2_eq[symmetric])
  have "r div 4096 div 64 * 262144 + (r div 4096) mod 64 * 4096 = r div 4096 * 4096"
    by (rule lin4) simp
  then have "r div 262144 * 262144 + (r div 4096) mod 64 * 4096 = r div 4096 * 4096"
    using h by simp
  then show ?thesis using split3[of r] by simp
qed


lemma mod64_le: "x mod 64 \<le> (63::nat)"
proof -
  have "x mod 64 < 64" by simp
  then show ?thesis by linarith
qed

lemma dec1: "r < 0x80 \<Longrightarrow> decoderune (encoderune r @ rest) = (r, 1)"
  by (simp add: encoderune_def decoderune.simps of_char_of)

lemma dec2:
  assumes a: "\<not> r < 0x80" "r < 0x800"
  shows "decoderune (encoderune r @ rest) = (r, 2)"
proof -
  have q: "r div 64 < 32" using a by simp
  have b: "0xC0 + r div 64 < 256" "0x80 + r mod 64 < 256" using a by simp_all
  have c: "(192 + r div 64) mod 32 = r div 64" using q by (rule mod32_add192)
  show ?thesis using a b q
    by (simp add: encoderune_def decoderune.simps of_char_char_of_nat is_cont_def Let_def c
        mod64_add128)
qed

lemma dec3:
  assumes a: "\<not> r < 0x800" "r < 0x10000" "\<not> (0xD800 \<le> r \<and> r \<le> 0xDFFF)"
  shows "decoderune (encoderune r @ rest) = (r, 3)"
proof -
  have q: "r div 4096 < 16" using a by simp
  have b: "0xE0 + r div 4096 < 256" "0x80 + (r div 64) mod 64 < 256" "0x80 + r mod 64 < 256"
    using a by simp_all
  have c: "(224 + r div 4096) mod 16 = r div 4096" using q by (rule mod16_add224)
  show ?thesis using a b q
    by (simp add: encoderune_def decoderune.simps of_char_char_of_nat is_cont_def Let_def c
        mod64_add128 split3 mod64_le)
qed

lemma dec3_err:
  assumes a: "0x10FFFF < r \<or> (0xD800 \<le> r \<and> r \<le> 0xDFFF)"
  shows "decoderune (encoderune r @ rest) = (RuneError, 3)"
  using a by (auto simp: encoderune_def decoderune.simps is_cont_def Let_def RuneError_def)

lemma dec4:
  assumes a: "\<not> r < 0x10000" "r \<le> 0x10FFFF"
  shows "decoderune (encoderune r @ rest) = (r, 4)"
proof -
  have q: "r div 262144 < 8" using a by simp
  have b: "0xF0 + r div 262144 < 256" "0x80 + (r div 4096) mod 64 < 256"
    "0x80 + (r div 64) mod 64 < 256" "0x80 + r mod 64 < 256"
    using a by simp_all
  have c: "(240 + r div 262144) mod 8 = r div 262144" using q by (rule mod8_add240)
  show ?thesis using a b q
    by (simp add: encoderune_def decoderune.simps of_char_char_of_nat is_cont_def Let_def c
        mod64_add128 split4 mod64_le)
qed

lemma decoderune_encoderune:
  "decoderune (encoderune r @ rest) = (sanitize r, length (encoderune r))"
proof -
  consider "r < 0x80" | "\<not> r < 0x80" "r < 0x800"
    | "0x10FFFF < r \<or> (0xD800 \<le> r \<and> r \<le> 0xDFFF)"
    | "\<not> r < 0x800" "r < 0x10000" "\<not> (0xD800 \<le> r \<and> r \<le> 0xDFFF)"
    | "\<not> r < 0x10000" "r \<le> 0x10FFFF"
    by linarith
  then show ?thesis
  proof cases
    case 1
    have "sanitize r = r" "length (encoderune r) = 1"
      using 1 by (simp_all add: sanitize_def encoderune_def)
    then show ?thesis using dec1[OF 1, of rest] by simp
  next
    case 2
    have "sanitize r = r" "length (encoderune r) = 2"
      using 2 by (simp_all add: sanitize_def encoderune_def)
    then show ?thesis using dec2[OF 2, of rest] by simp
  next
    case 3
    have "sanitize r = RuneError" "length (encoderune r) = 3"
      using 3 by (auto simp: sanitize_def encoderune_def)
    then show ?thesis using dec3_err[OF 3, of rest] by simp
  next
    case 4
    have "sanitize r = r" "length (encoderune r) = 3"
      using 4 by (auto simp: sanitize_def encoderune_def)
    then show ?thesis using dec3[OF 4, of rest] by simp
  next
    case 5
    have "sanitize r = r" "length (encoderune r) = 4"
      using 5 by (auto simp: sanitize_def encoderune_def)
    then show ?thesis using dec4[OF 5, of rest] by simp
  qed
qed

lemma encoderune_nonempty: "encoderune r \<noteq> []"
  by (simp add: encoderune_def)

lemma runes_of_encoderune: "runes_of (encoderune r @ rest) = sanitize r # runes_of rest"
proof -
  obtain c cs where e: "encoderune r = c # cs"
    using encoderune_nonempty by (cases "encoderune r") auto
  have "decoderune (c # cs @ rest) = (sanitize r, Suc (length cs))"
    using decoderune_encoderune[of r rest] e by simp
  then show ?thesis using e by simp
qed

lemma runes_of_string_of_runes: "runes_of (string_of_runes rs) = map sanitize rs"
  by (induction rs) (simp_all add: string_of_runes_def runes_of_encoderune)

section \<open>The two loops of Deobfuscate\<close>

lemma reverse_loop_invariant:
  "i \<le> length rs div 2 \<Longrightarrow>
     length (reverse_loop i rs) = length rs \<and>
     (\<forall>k < length rs. reverse_loop i rs ! k
         = (if i \<le> k \<and> k < length rs - i then rs ! (length rs - 1 - k) else rs ! k))"
proof (induction i rs rule: reverse_loop.induct)
  case (1 i runes)
  let ?n = "length runes"
  show ?case
  proof (cases "i < ?n div 2")
    case False
    then have i: "i = ?n div 2" using "1.prems" by simp
    have "reverse_loop i runes = runes" using False by (simp add: reverse_loop.simps[of i runes])
    moreover have "\<And>k. i \<le> k \<Longrightarrow> k < ?n - i \<Longrightarrow> ?n - 1 - k = k" using i by linarith
    ultimately show ?thesis by auto
  next
    case True
    let ?rs' = "runes[i := runes ! (?n - 1 - i), ?n - 1 - i := runes ! i]"
    have len: "length ?rs' = ?n" by simp
    have step: "reverse_loop i runes = reverse_loop (i + 1) ?rs'"
      using True by (simp add: reverse_loop.simps[of i runes])
    have "i + 1 \<le> length ?rs' div 2" using True by simp
    from "1.IH"[OF True this]
    have IH: "length (reverse_loop (i + 1) ?rs') = ?n"
      "\<And>k. k < ?n \<Longrightarrow> reverse_loop (i + 1) ?rs' ! k
          = (if i + 1 \<le> k \<and> k < ?n - (i + 1) then ?rs' ! (?n - 1 - k) else ?rs' ! k)"
      by (simp_all only: len)
    have "\<And>k. k < ?n \<Longrightarrow> reverse_loop (i + 1) ?rs' ! k
          = (if i \<le> k \<and> k < ?n - i then runes ! (?n - 1 - k) else runes ! k)"
    proof -
      fix k assume k: "k < ?n"
      have ii: "i < ?n - 1 - i" "?n - 1 - i < ?n" "i < ?n - i" "?n - 1 - i < ?n - i"
        "?n - 1 - (?n - 1 - i) = i" "i < ?n"
        using True by linarith+
      consider "k = i" | "k = ?n - 1 - i" | "i + 1 \<le> k" "k < ?n - 1 - i" | "k < i" | "?n - i \<le> k"
        by linarith
      then show "reverse_loop (i + 1) ?rs' ! k
          = (if i \<le> k \<and> k < ?n - i then runes ! (?n - 1 - k) else runes ! k)"
      proof cases
        case 1 then show ?thesis using IH(2)[OF k] ii k by (simp add: nth_list_update)
      next
        case 2 then show ?thesis using IH(2)[OF k] ii k by (simp add: nth_list_update)
      next
        case 3
        have "?n - 1 - k \<noteq> i" "?n - 1 - k \<noteq> ?n - 1 - i" "?n - 1 - k < ?n"
          "k < ?n - i" "i \<le> k"
          using 3 k by linarith+
        then show ?thesis using IH(2)[OF k] 3 k by (simp add: nth_list_update)
      next
        case 4 then show ?thesis using IH(2)[OF k] ii k by (simp add: nth_list_update)
      next
        case 5 then show ?thesis using IH(2)[OF k] ii k by (simp add: nth_list_update)
      qed
    qed
    then show ?thesis using IH(1) step by simp
  qed
qed

lemma reverse_loop_rev: "reverse_loop 0 rs = rev rs"
proof (rule nth_equalityI)
  show "length (reverse_loop 0 rs) = length (rev rs)"
    using reverse_loop_invariant[of 0 rs] by simp
next
  fix k assume "k < length (reverse_loop 0 rs)"
  then have k: "k < length rs" using reverse_loop_invariant[of 0 rs] by simp
  then have "reverse_loop 0 rs ! k = rs ! (length rs - 1 - k)"
    using reverse_loop_invariant[of 0 rs] by simp
  also have "\<dots> = rev rs ! k" using k by (simp add: rev_nth)
  finally show "reverse_loop 0 rs ! k = rev rs ! k" .
qed

lemma filter_loop_every_other:
  "filter_loop i runes filtered = filtered @ every_other (drop i runes)"
proof (induction i runes filtered rule: filter_loop.induct)
  case (1 i runes filtered)
  show ?case
  proof (cases "i < length runes")
    case False
    then show ?thesis by (simp add: filter_loop.simps[of i runes filtered])
  next
    case True
    have d: "drop i runes = runes ! i # drop (Suc i) runes" using True by (simp add: Cons_nth_drop_Suc)
    have e: "every_other (drop i runes) = runes ! i # every_other (drop (i + 2) runes)"
    proof (cases "Suc i < length runes")
      case True
      then have "drop (Suc i) runes = runes ! Suc i # drop (Suc (Suc i)) runes"
        by (simp add: Cons_nth_drop_Suc)
      then show ?thesis using d by simp
    next
      case False
      then show ?thesis using d by simp
    qed
    show ?thesis using True "1.IH"[OF True] e by (simp add: filter_loop.simps[of i runes filtered])
  qed
qed

lemma every_other_interleave: "every_other (spec_interleave cs fill i) = cs"
  by (induction cs fill i rule: spec_interleave.induct) simp_all

lemma every_other_map: "every_other (map f xs) = map f (every_other xs)"
  by (induction xs rule: every_other.induct) simp_all

section \<open>Base64: decoding an encoding\<close>

lemma top_sextet: "v < 16777216 \<Longrightarrow> v div 262144 mod 64 = (v div 262144 :: nat)"
proof -
  assume "v < 16777216"
  then have "v div 262144 < 64" by simp
  then show ?thesis by simp
qed

lemma val3_bound: "a < 256 \<Longrightarrow> b < 256 \<Longrightarrow> c < 256 \<Longrightarrow> a * 65536 + b * 256 + c < (16777216::nat)"
  by linarith

lemma byte_hi: "b < 256 \<Longrightarrow> c < 256 \<Longrightarrow> a < 256 \<Longrightarrow> (a * 65536 + b * 256 + c) div 65536 mod 256 = (a::nat)"
proof -
  assume h: "b < 256" "c < 256" "a < 256"
  have "b * 256 + c < 65536" using h by linarith
  then have "(b * 256 + c + a * 65536) div 65536 = a" by simp
  then have "(a * 65536 + b * 256 + c) div 65536 = a" by (simp add: add.commute add.left_commute)
  then show ?thesis using h by simp
qed

lemma byte_mid: "b < 256 \<Longrightarrow> c < 256 \<Longrightarrow> (a * 65536 + b * 256 + c) div 256 mod 256 = (b::nat)"
proof -
  assume h: "b < 256" "c < 256"
  have "(c + (a * 256 + b) * 256) div 256 = a * 256 + b" using h by simp
  moreover have "c + (a * 256 + b) * 256 = a * 65536 + b * 256 + c" by simp
  ultimately have "(a * 65536 + b * 256 + c) div 256 = a * 256 + b" by simp
  then show ?thesis using h by simp
qed

lemma byte_lo: "c < 256 \<Longrightarrow> (a * 65536 + b * 256 + c) mod 256 = (c::nat)"
proof -
  assume h: "c < 256"
  have e: "a * 65536 + b * 256 + c = c + (a * 256 + b) * 256" by simp
  have "(c + (a * 256 + b) * 256) mod 256 = c mod 256" by (simp only: mod_mult_self1)
  then show ?thesis unfolding e using h by simp
qed

lemma low_zero1: "(a * 65536) mod 64 = (0::nat)" "(a * 65536) div 64 mod 64 = (0::nat)"
proof -
  have e: "a * 65536 = a * 1024 * 64" by simp
  show "(a * 65536) mod 64 = (0::nat)" unfolding e by simp
  have "(a * 65536) div 64 = a * 16 * 64" unfolding e by simp
  then show "(a * 65536) div 64 mod 64 = (0::nat)" by simp
qed

lemma low_zero2: "(a * 65536 + b * 256) mod 64 = (0::nat)"
proof -
  have e: "a * 65536 + b * 256 = (a * 1024 + b * 4) * 64" by simp
  show ?thesis unfolding e by simp
qed


lemma of_char_lt_256: "(of_char c :: nat) < 256"
proof -
  have "(of_char c :: nat) mod 256 = of_char c" by (rule of_char_mod_256)
  moreover have "(of_char c :: nat) mod 256 < 256" by simp
  ultimately show ?thesis by simp
qed

lemma index_of_nth: "distinct xs \<Longrightarrow> i < length xs \<Longrightarrow> index_of (xs ! i) xs = Some i"
proof (induction xs arbitrary: i)
  case Nil then show ?case by simp
next
  case (Cons x xs)
  show ?case
  proof (cases i)
    case 0 then show ?thesis by simp
  next
    case (Suc j)
    then have "xs ! j \<in> set xs" using Cons.prems by simp
    then have "xs ! j \<noteq> x" using Cons.prems by auto
    then show ?thesis using Suc Cons by simp
  qed
qed

lemma distinct_encodeStd: "distinct encodeStd"
  by (simp add: encodeStd_def)

lemma length_encodeStd: "length encodeStd = 64"
  by (simp add: encodeStd_def)

lemma decodeMap_enc: "i < 64 \<Longrightarrow> decodeMap (enc i) = Some i"
  by (simp add: decodeMap_def enc_def index_of_nth distinct_encodeStd length_encodeStd)

lemma special_not_in_alphabet:
  "padChar \<notin> set encodeStd" "CHR 0x0A \<notin> set encodeStd" "CHR 0x0D \<notin> set encodeStd"
  by (simp_all add: encodeStd_def padChar_def)

lemma enc_in_alphabet: "i < 64 \<Longrightarrow> enc i \<in> set encodeStd"
  by (simp add: enc_def length_encodeStd)

lemma enc_not_special:
  assumes "i < 64"
  shows "enc i \<noteq> padChar" "enc i \<noteq> CHR 0x0A" "enc i \<noteq> CHR 0x0D"
  using enc_in_alphabet[OF assms] special_not_in_alphabet by auto

lemma alphabet_ascii: "c \<in> set encodeStd \<Longrightarrow> (of_char c :: nat) < 0x80"
  by (auto simp: encodeStd_def)


lemma sextet_lt: "v div k mod 64 < (64::nat)" "v mod 64 < (64::nat)"
  by simp_all

lemma regroup:
  assumes "v < 16777216"
  shows "quantum_val (v div 262144 mod 64) (v div 4096 mod 64) (v div 64 mod 64) (v mod 64) = v"
  using split4[of v] top_sextet[OF assms] by (simp add: quantum_val_def)

lemma quantum3:
  fixes a b c :: char
  defines "v \<equiv> (of_char a :: nat) * 65536 + of_char b * 256 + of_char c"
  shows "decodeQuanta (enc (v div 262144 mod 64) # enc (v div 4096 mod 64) # enc (v div 64 mod 64)
            # enc (v mod 64) # rest)
         = (case decodeQuanta rest of None \<Rightarrow> None | Some bs \<Rightarrow> Some (a # b # c # bs))"
proof -
  have v: "v < 16777216" unfolding v_def by (rule val3_bound) (rule of_char_lt_256)+
  have b0: "byte0 v = a" unfolding byte0_def v_def
    by (simp add: byte_hi of_char_lt_256)
  have b1: "byte1 v = b" unfolding byte1_def v_def
    by (simp add: byte_mid of_char_lt_256)
  have b2: "byte2 v = c" unfolding byte2_def v_def
    by (simp add: byte_lo of_char_lt_256)
  show ?thesis
    by (simp add: decodeMap_enc sextet_lt enc_not_special regroup[OF v] b0 b1 b2
        split: option.splits)
qed

lemma quantum2:
  fixes a b :: char
  defines "v \<equiv> (of_char a :: nat) * 65536 + of_char b * 256"
  shows "decodeQuanta [enc (v div 262144 mod 64), enc (v div 4096 mod 64), enc (v div 64 mod 64), padChar]
         = Some [a, b]"
proof -
  have v0: "v = of_char a * 65536 + of_char b * 256 + 0" by (simp add: v_def)
  have v: "v < 16777216" unfolding v0 by (rule val3_bound) (simp_all add: of_char_lt_256)
  have z: "v mod 64 = 0" unfolding v_def by (rule low_zero2)
  have r: "quantum_val (v div 262144 mod 64) (v div 4096 mod 64) (v div 64 mod 64) 0 = v"
    using regroup[OF v] z by simp
  have b0: "byte0 v = a" unfolding byte0_def v0
    by (simp add: byte_hi of_char_lt_256 del: add_0_right)
  have b1: "byte1 v = b" unfolding byte1_def v0
    by (simp add: byte_mid of_char_lt_256 del: add_0_right)
  show ?thesis
    by (simp add: decodeMap_enc sextet_lt enc_not_special r b0 b1)
qed

lemma quantum1:
  fixes a :: char
  defines "v \<equiv> (of_char a :: nat) * 65536"
  shows "decodeQuanta [enc (v div 262144 mod 64), enc (v div 4096 mod 64), padChar, padChar] = Some [a]"
proof -
  have v0: "v = of_char a * 65536 + 0 * 256 + 0" by (simp add: v_def)
  have v: "v < 16777216" unfolding v0 by (rule val3_bound) (simp_all add: of_char_lt_256)
  have z: "v mod 64 = 0" "v div 64 mod 64 = 0" unfolding v_def by (rule low_zero1)+
  have r: "quantum_val (v div 262144 mod 64) (v div 4096 mod 64) 0 0 = v"
    using regroup[OF v] z by simp
  have b0: "byte0 v = a" unfolding byte0_def v0
    by (simp add: byte_hi of_char_lt_256 del: add_0_right mult_zero_left)
  show ?thesis
    by (simp add: decodeMap_enc sextet_lt enc_not_special r b0)
qed

lemma decodeQuanta_encode: "decodeQuanta (spec_base64_encode p) = Some p"
proof (induction p rule: spec_base64_encode.induct)
  case 1 show ?case by simp
next
  case (2 a) show ?case using quantum1[of a] by (simp add: Let_def)
next
  case (3 a b) show ?case using quantum2[of a b] by (simp add: Let_def)
next
  case (4 a b c rest)
  show ?case using quantum3[of a b c "spec_base64_encode rest"] 4 by (simp add: Let_def)
qed

lemma encode_chars:
  "c \<in> set (spec_base64_encode p) \<Longrightarrow> c \<in> set encodeStd \<or> c = padChar"
  by (induction p rule: spec_base64_encode.induct)
     (auto simp: Let_def enc_in_alphabet sextet_lt)

lemma encode_no_newline:
  "filter (\<lambda>c. c \<noteq> CHR 0x0A \<and> c \<noteq> CHR 0x0D) (spec_base64_encode p) = spec_base64_encode p"
proof -
  have "\<And>c. c \<in> set (spec_base64_encode p) \<Longrightarrow> c \<noteq> CHR 0x0A \<and> c \<noteq> CHR 0x0D"
    using encode_chars special_not_in_alphabet by (auto simp: padChar_def)
  then show ?thesis by (simp add: filter_id_conv)
qed

lemma DecodeString_encode: "DecodeString (spec_base64_encode p) = Some p"
  by (simp add: DecodeString_def encode_no_newline decodeQuanta_encode)

lemma encode_ascii:
  assumes "c \<in> set (spec_base64_encode p)"
  shows "(of_char c :: nat) < 0x80"
proof -
  from encode_chars[OF assms] show ?thesis
  proof
    assume "c \<in> set encodeStd" then show ?thesis by (rule alphabet_ascii)
  next
    assume "c = padChar" then show ?thesis by (simp add: padChar_def)
  qed
qed

section \<open>Deobfuscate on an obfuscated token\<close>

lemma Deobfuscate_eq:
  "Deobfuscate s =
     (case DecodeString (string_of_runes (every_other (rev (runes_of s)))) of
        None \<Rightarrow> Inl DecodingBase64 | Some bytes \<Rightarrow> Inr bytes)"
  by (simp add: Deobfuscate_def reverse_loop_rev filter_loop_every_other)

lemma sanitize_small: "r < 256 \<Longrightarrow> sanitize r = r"
  by (simp add: sanitize_def)

lemma sanitize_of_char: "sanitize (of_char c) = of_char c"
  by (rule sanitize_small) (rule of_char_lt_256)

lemma encoderune_ascii: "(of_char c :: nat) < 0x80 \<Longrightarrow> encoderune (of_char c) = [c]"
  by (simp add: encoderune_def)

lemma string_of_runes_ascii:
  "(\<And>c. c \<in> set s \<Longrightarrow> (of_char c :: nat) < 0x80) \<Longrightarrow> string_of_runes (map of_char s) = s"
  by (induction s) (simp_all add: string_of_runes_def encoderune_ascii)

lemma Deobfuscate_obfuscate: "Deobfuscate (spec_obfuscate p fill) = Inr p"
proof -
  let ?b = "spec_base64_encode p"
  let ?X = "spec_interleave (map of_char ?b) fill 0"
  have "rev (runes_of (spec_obfuscate p fill)) = map sanitize ?X"
    by (simp add: spec_obfuscate_def runes_of_string_of_runes rev_map)
  then have "every_other (rev (runes_of (spec_obfuscate p fill))) = map sanitize (map of_char ?b)"
    by (simp add: every_other_map every_other_interleave)
  also have "\<dots> = map of_char ?b" by (simp add: sanitize_of_char)
  finally have "string_of_runes (every_other (rev (runes_of (spec_obfuscate p fill)))) = ?b"
    by (simp add: string_of_runes_ascii encode_ascii)
  then show ?thesis by (simp add: Deobfuscate_eq DecodeString_encode)
qed

lemma every_other_cong:
  "length xs = length ys \<Longrightarrow> (\<And>i. i < length xs \<Longrightarrow> even i \<Longrightarrow> xs ! i = ys ! i) \<Longrightarrow>
   every_other xs = every_other ys"
proof (induction xs arbitrary: ys rule: every_other.induct)
  case 1 then show ?case by simp
next
  case (2 x)
  then obtain y where "ys = [y]" by (cases ys) auto
  then show ?case using "2.prems"(2)[of 0] by simp
next
  case (3 x y zs)
  then obtain x' y' zs' where ys: "ys = x' # y' # zs'" "length zs = length zs'"
    by (cases ys; cases "tl ys") auto
  have "x = x'" using "3.prems"(2)[of 0] ys by simp
  moreover have "every_other zs = every_other zs'"
  proof (rule "3.IH"[OF ys(2)])
    fix i assume "i < length zs" "even i"
    then show "zs ! i = zs' ! i" using "3.prems"(2)[of "Suc (Suc i)"] ys by simp
  qed
  ultimately show ?case using ys by simp
qed

section \<open>Claims about Deobfuscate\<close>

lemma decoderune_ascii: "(of_char c :: nat) < 0x80 \<Longrightarrow> decoderune (c # cs) = (of_char c, 1)"
  by (simp add: decoderune.simps)

lemma runes_of_ascii:
  "(\<And>c. c \<in> set s \<Longrightarrow> (of_char c :: nat) < 0x80) \<Longrightarrow> runes_of s = map of_char s"
  by (induction s) (simp_all add: decoderune_ascii)

lemma enc_eval: "spec_base64_encode ''hi'' = ''aGk=''"
  by (simp add: enc_def encodeStd_def padChar_def)

lemma obf_eval: "spec_obfuscate ''hi'' (\<lambda>i. 0x78) = ''x=xkxGxa''"
  unfolding spec_obfuscate_def enc_eval
  by (simp add: string_of_runes_def encoderune_def char_of_def bit_Suc_0_iff)

lemma interleave_Nil_iff: "spec_interleave cs fill i = [] \<longleftrightarrow> cs = []"
  by (cases cs) simp_all

lemma every_other_butlast_interleave: "every_other (butlast (spec_interleave cs fill i)) = cs"
proof (induction cs arbitrary: i)
  case Nil show ?case by simp
next
  case (Cons c cs)
  show ?case
  proof (cases cs)
    case Nil then show ?thesis by simp
  next
    case (Cons c' cs')
    then have "spec_interleave cs fill (Suc i) \<noteq> []" by simp
    then show ?thesis using Cons.IH[of "Suc i"] by simp
  qed
qed

lemma Deobfuscate_obfuscate_bare:
  "Deobfuscate (string_of_runes (rev (butlast
      (spec_interleave (map of_char (spec_base64_encode p)) fill 0)))) = Inr p"
proof -
  let ?b = "spec_base64_encode p"
  let ?X = "butlast (spec_interleave (map of_char ?b) fill 0)"
  have "rev (runes_of (string_of_runes (rev ?X))) = map sanitize ?X"
    by (simp add: runes_of_string_of_runes rev_map)
  then have "every_other (rev (runes_of (string_of_runes (rev ?X)))) = map sanitize (map of_char ?b)"
    by (simp add: every_other_map every_other_butlast_interleave)
  also have "\<dots> = map of_char ?b" by (simp add: sanitize_of_char)
  finally have "string_of_runes (every_other (rev (runes_of (string_of_runes (rev ?X))))) = ?b"
    by (simp add: string_of_runes_ascii encode_ascii)
  then show ?thesis by (simp add: Deobfuscate_eq DecodeString_encode)
qed

text \<open>
  C1: decode variant A is a left inverse of the forward obfuscation. For every plaintext and
  every choice of filler characters, \<open>Deobfuscate\<close> applied to the reversed interleaving of
  the base64 encoding with the fillers returns exactly the plaintext, with no error. This
  holds with a filler after every character of the encoding, and also when the filler after
  the last one is left out.
\<close>

theorem Deobfuscate_round_trip:
  "Deobfuscate (spec_obfuscate p fill) = Inr p \<and>
   Deobfuscate (string_of_runes (rev (butlast
      (spec_interleave (map of_char (spec_base64_encode p)) fill 0)))) = Inr p"
  using Deobfuscate_obfuscate Deobfuscate_obfuscate_bare by blast

theorem Deobfuscate_round_trip_witness:
  "Deobfuscate ''x=xkxGxa'' = Inr ''hi'' \<and>
   Deobfuscate (spec_obfuscate ''https://example.com/x.m3u8'' (\<lambda>i. 0x78))
     = Inr ''https://example.com/x.m3u8''"
  using Deobfuscate_round_trip [of "''hi''" "\<lambda>i. 0x78"]
    Deobfuscate_round_trip [of "''https://example.com/x.m3u8''" "\<lambda>i. 0x78"]
  by (simp add: obf_eval)

text \<open>
  C10: the output of \<open>Deobfuscate\<close> does not depend on the discarded filler. Two inputs
  with the same number of characters whose reversed character sequences agree at every even
  index give the same result, the same value or the same failure. Length and indices count
  characters (runes), as the program does after \<open>[]rune(obfCode)\<close>.
\<close>

theorem Deobfuscate_ignores_filler:
  assumes "length (runes_of s) = length (runes_of t)"
    and "\<forall>i < length (runes_of s). even i \<longrightarrow> rev (runes_of s) ! i = rev (runes_of t) ! i"
  shows "Deobfuscate s = Deobfuscate t"
proof -
  have "every_other (rev (runes_of s)) = every_other (rev (runes_of t))"
    using assms by (intro every_other_cong) simp_all
  then show ?thesis by (simp add: Deobfuscate_eq)
qed

lemma runes_of_token_x: "runes_of ''x=xkxGxa'' = map of_char ''x=xkxGxa''"
  by (rule runes_of_ascii) auto
lemma runes_of_token_digits: "runes_of ''1=2k3G4a'' = map of_char ''1=2k3G4a''"
  by (rule runes_of_ascii) auto

theorem Deobfuscate_ignores_filler_witness:
  "Deobfuscate ''x=xkxGxa'' = Deobfuscate ''1=2k3G4a''"
proof -
  have 1: "length (runes_of ''x=xkxGxa'') = length (runes_of ''1=2k3G4a'')"
    unfolding runes_of_token_x runes_of_token_digits by simp
  have 2: "\<forall>i < length (runes_of ''x=xkxGxa''). even i \<longrightarrow>
             rev (runes_of ''x=xkxGxa'') ! i = rev (runes_of ''1=2k3G4a'') ! i"
  proof (intro allI impI)
    fix i assume "i < length (runes_of ''x=xkxGxa'')" and e: "even i"
    then have i: "i < 8" unfolding runes_of_token_x by simp
    from e obtain k where k: "i = 2 * k" by (elim evenE)
    then have "k = 0 \<or> k = 1 \<or> k = 2 \<or> k = 3" using i by linarith
    then show "rev (runes_of ''x=xkxGxa'') ! i = rev (runes_of ''1=2k3G4a'') ! i"
      unfolding runes_of_token_x runes_of_token_digits k by (elim disjE) simp_all
  qed
  show ?thesis using Deobfuscate_ignores_filler [OF 1 2] .
qed

text \<open>
  Counting bytes instead of characters would not do: the two strings below have the same
  length in bytes and their reversed byte sequences agree at every even index, but the bytes
  \<open>C3 A9\<close> of the second are one character, which shifts the parity of what precedes it.
\<close>

lemma Deobfuscate_counts_characters:
  "length (''=a=aQ'' @ [CHR 0xC3] @ ''aQ'') = length (''=a=aQ'' @ [CHR 0xC3, CHR 0xA9] @ ''Q'') \<and>
   every_other (rev (''=a=aQ'' @ [CHR 0xC3] @ ''aQ''))
     = every_other (rev (''=a=aQ'' @ [CHR 0xC3, CHR 0xA9] @ ''Q'')) \<and>
   Deobfuscate (''=a=aQ'' @ [CHR 0xC3] @ ''aQ'') = Inl DecodingBase64 \<and>
   Deobfuscate (''=a=aQ'' @ [CHR 0xC3, CHR 0xA9] @ ''Q'') = Inr ''A''"
  by (simp add: Deobfuscate_eq decoderune.simps is_cont_def RuneError_def string_of_runes_def
      encoderune_def char_of_def bit_Suc_0_iff DecodeString_def decodeMap_def encodeStd_def
      padChar_def quantum_val_def byte0_def)

section \<open>Facts about TrimSpace\<close>

lemma space_encodings_eq:
  "space_encodings = [[CHR 0x09], [CHR 0x0A], [CHR 0x0B], [CHR 0x0C], [CHR 0x0D], [CHR 0x20],
     [CHR 0xC2, CHR 0x85], [CHR 0xC2, CHR 0xA0], [CHR 0xE1, CHR 0x9A, CHR 0x80],
     [CHR 0xE2, CHR 0x80, CHR 0x80], [CHR 0xE2, CHR 0x80, CHR 0x81], [CHR 0xE2, CHR 0x80, CHR 0x82],
     [CHR 0xE2, CHR 0x80, CHR 0x83], [CHR 0xE2, CHR 0x80, CHR 0x84], [CHR 0xE2, CHR 0x80, CHR 0x85],
     [CHR 0xE2, CHR 0x80, CHR 0x86], [CHR 0xE2, CHR 0x80, CHR 0x87], [CHR 0xE2, CHR 0x80, CHR 0x88],
     [CHR 0xE2, CHR 0x80, CHR 0x89], [CHR 0xE2, CHR 0x80, CHR 0x8A],
     [CHR 0xE2, CHR 0x80, CHR 0xA8], [CHR 0xE2, CHR 0x80, CHR 0xA9], [CHR 0xE2, CHR 0x80, CHR 0xAF],
     [CHR 0xE2, CHR 0x81, CHR 0x9F], [CHR 0xE3, CHR 0x80, CHR 0x80]]"
  unfolding space_encodings_def White_Space_def encoderune_def
  by (simp add: char_of_def bit_Suc_0_iff)

lemma TrimSpace_Nil: "TrimSpace [] = []"
  by (simp add: TrimSpace_def)

lemma strip_front_stops:
  "strip_front encs s = c # cs \<Longrightarrow> find (HasPrefix (c # cs)) encs = None"
proof (induction encs s rule: strip_front.induct)
  case (1 encs) then show ?case by simp
next
  case (2 encs a as)
  show ?case
  proof (cases "find (HasPrefix (a # as)) encs")
    case None then show ?thesis using "2.prems" by simp
  next
    case (Some e) then show ?thesis using "2.IH"[OF Some] "2.prems" by simp
  qed
qed

lemma strip_front_keeps:
  "find (HasPrefix (c # cs)) encs = None \<Longrightarrow> strip_front encs (c # cs) = c # cs"
  by simp

text \<open>A trimmed string that is not empty does not end in a line break.\<close>

lemma TrimSpace_last:
  assumes "TrimSpace s \<noteq> []"
  shows "last (TrimSpace s) \<noteq> CHR 0x0A \<and> last (TrimSpace s) \<noteq> CHR 0x0D"
proof -
  let ?y = "strip_front (map rev space_encodings) (rev (strip_front space_encodings s))"
  have t: "TrimSpace s = rev ?y" by (simp add: TrimSpace_def)
  then obtain c cs where y: "?y = c # cs" using assms by (cases ?y) auto
  have "find (HasPrefix (c # cs)) (map rev space_encodings) = None"
    using strip_front_stops[OF y] .
  then have n: "\<And>e. e \<in> set (map rev space_encodings) \<Longrightarrow> \<not> HasPrefix (c # cs) e"
    unfolding find_None_iff by blast
  have "[CHR 0x0A] \<in> set (map rev space_encodings)" "[CHR 0x0D] \<in> set (map rev space_encodings)"
    by (simp_all add: space_encodings_eq)
  then have "\<not> HasPrefix (c # cs) [CHR 0x0A] \<and> \<not> HasPrefix (c # cs) [CHR 0x0D]"
    using n by blast
  then have "c \<noteq> CHR 0x0A \<and> c \<noteq> CHR 0x0D" by simp
  moreover have "last (TrimSpace s) = c" using t y by simp
  ultimately show ?thesis by simp
qed

text \<open>A string that starts and ends with a printable ASCII character is left as it is.\<close>

lemma encodings_not_graphic:
  "\<forall>e \<in> set space_encodings. e \<noteq> [] \<and> \<not> graphic (hd e)"
  "\<forall>e \<in> set (map rev space_encodings). e \<noteq> [] \<and> \<not> graphic (hd e)"
  by (simp_all add: space_encodings_eq graphic_def)

lemma find_HasPrefix_None:
  assumes "\<forall>e \<in> set encs. e \<noteq> [] \<and> \<not> P (hd e)" and "P c"
  shows "find (HasPrefix (c # cs)) encs = None"
proof -
  have "\<And>e. e \<in> set encs \<Longrightarrow> \<not> HasPrefix (c # cs) e"
  proof -
    fix e assume "e \<in> set encs"
    then have e: "e \<noteq> []" "\<not> P (hd e)" using assms(1) by blast+
    then obtain h t where "e = h # t" by (cases e) simp_all
    then show "\<not> HasPrefix (c # cs) e" using e assms(2) by auto
  qed
  then show ?thesis unfolding find_None_iff by blast
qed

lemma graphic_no_prefix:
  assumes "graphic c"
  shows "find (HasPrefix (c # cs)) space_encodings = None"
    and "find (HasPrefix (c # cs)) (map rev space_encodings) = None"
  using find_HasPrefix_None[OF encodings_not_graphic(1) assms]
    find_HasPrefix_None[OF encodings_not_graphic(2) assms] by blast+

lemma TrimSpace_graphic:
  assumes "s \<noteq> []" "graphic (hd s)" "graphic (last s)"
  shows "TrimSpace s = s"
proof -
  obtain c cs where s: "s = c # cs" using assms(1) by (cases s) auto
  have 1: "strip_front space_encodings s = s"
    using graphic_no_prefix(1)[of c cs] assms(2) s by simp
  obtain d ds where r: "rev s = d # ds" using assms(1) by (cases "rev s") auto
  then have "d = last s" by (metis last_rev list.sel(1) rev_rev_ident hd_rev)
  then have "find (HasPrefix (d # ds)) (map rev space_encodings) = None"
    using graphic_no_prefix(2) assms(3) by simp
  then have "strip_front (map rev space_encodings) (rev s) = rev s" using r by simp
  then show ?thesis using 1 by (simp add: TrimSpace_def)
qed

section \<open>The decode stage never returns the empty string\<close>

lemma decodeQuanta_empty: "decodeQuanta s = Some [] \<Longrightarrow> s = []"
  by (cases s rule: decodeQuanta.cases)
     (auto split: option.splits if_splits prod.splits)

lemma decoderune_small:
  assumes "fst (decoderune (c # cs)) < 0x80"
  shows "decoderune (c # cs) = (of_char c, 1)"
  using assms
  by (auto simp: decoderune.simps Let_def RuneError_def split: if_splits list.splits)

lemma runes_of_nonempty: "s \<noteq> [] \<Longrightarrow> runes_of s \<noteq> []"
  by (cases s) simp_all

lemma last_rune_ascii:
  "s \<noteq> [] \<Longrightarrow> last (runes_of s) < 0x80 \<Longrightarrow> last (runes_of s) = of_char (last s)"
proof (induction s rule: runes_of.induct)
  case 1 then show ?case by simp
next
  case (2 c cs)
  let ?rest = "drop (snd (decoderune (c # cs)) - 1) cs"
  show ?case
  proof (cases "?rest = []")
    case True
    then have l: "last (runes_of (c # cs)) = fst (decoderune (c # cs))" by simp
    then have d: "decoderune (c # cs) = (of_char c, 1)" using "2.prems"(2) decoderune_small by simp
    then have "cs = []" using True by simp
    then show ?thesis using l d by simp
  next
    case False
    then have ne: "runes_of ?rest \<noteq> []" by (rule runes_of_nonempty)
    then have l: "last (runes_of (c # cs)) = last (runes_of ?rest)" by simp
    then have "last (runes_of ?rest) = of_char (last ?rest)" using "2.IH"[OF False] "2.prems"(2) by simp
    moreover have "last ?rest = last (c # cs)"
    proof -
      have n: "snd (decoderune (c # cs)) - 1 < length cs" using False by simp
      then have "cs \<noteq> []" by auto
      then show ?thesis using last_drop[OF n] by simp
    qed
    ultimately show ?thesis using l by simp
  qed
qed



lemma hd_encoderune_big:
  assumes n: "\<not> r < 0x80"
  shows "0xC0 \<le> (of_char (hd (encoderune r)) :: nat)"
proof -
  consider "r < 0x800"
    | "0x10FFFF < r \<or> (0xD800 \<le> r \<and> r \<le> 0xDFFF)"
    | "\<not> r < 0x800" "r < 0x10000" "\<not> (0xD800 \<le> r \<and> r \<le> 0xDFFF)"
    | "\<not> r < 0x10000" "r \<le> 0x10FFFF"
    by linarith
  then show ?thesis
  proof cases
    case 1
    have "0xC0 + r div 64 < 256" using 1 by simp
    then show ?thesis using n 1 by (simp add: encoderune_def of_char_char_of_nat)
  next
    case 2
    then show ?thesis using n by (auto simp: encoderune_def)
  next
    case 3
    have "0xE0 + r div 4096 < 256" using 3 by simp
    then show ?thesis using n 3 by (simp add: encoderune_def of_char_char_of_nat)
  next
    case 4
    have "0xF0 + r div 262144 < 256" using 4 by simp
    then show ?thesis using n 4 by (simp add: encoderune_def of_char_char_of_nat)
  qed
qed

lemma encoderune_newline:
  assumes "hd (encoderune r) = CHR 0x0A \<or> hd (encoderune r) = CHR 0x0D"
  shows "r < 0x80 \<and> encoderune r = [char_of r]"
proof -
  have "r < 0x80"
  proof (rule ccontr)
    assume "\<not> r < 0x80"
    then have "0xC0 \<le> (of_char (hd (encoderune r)) :: nat)" by (rule hd_encoderune_big)
    then show False using assms by auto
  qed
  then show ?thesis by (simp add: encoderune_def)
qed


lemma every_other_Cons: "every_other (x # xs) = x # every_other (tl xs)"
  by (cases xs) simp_all

lemma Deobfuscate_nonempty:
  assumes tok: "tok \<noteq> []" "last tok \<noteq> CHR 0x0A" "last tok \<noteq> CHR 0x0D"
    and d: "Deobfuscate tok = Inr u"
  shows "u \<noteq> []"
proof
  assume u: "u = []"
  let ?F = "string_of_runes (every_other (rev (runes_of tok)))"
  have "DecodeString ?F = Some []"
    using d u by (simp add: Deobfuscate_eq split: option.splits)
  then have "filter (\<lambda>c. c \<noteq> CHR 0x0A \<and> c \<noteq> CHR 0x0D) ?F = []"
    unfolding DecodeString_def by (rule decodeQuanta_empty)
  then have nl: "\<And>c. c \<in> set ?F \<Longrightarrow> c = CHR 0x0A \<or> c = CHR 0x0D"
    by (auto simp: filter_empty_conv)
  have ne: "runes_of tok \<noteq> []" using tok(1) by (rule runes_of_nonempty)
  let ?r = "last (runes_of tok)"
  obtain rest where rv: "rev (runes_of tok) = ?r # rest"
    using ne by (cases "rev (runes_of tok)") (auto simp: last_rev hd_rev)
  have e: "every_other (rev (runes_of tok)) = ?r # every_other (tl rest)"
    by (simp only: rv every_other_Cons)
  have "?F = encoderune ?r @ string_of_runes (every_other (tl rest))"
    unfolding e by (simp add: string_of_runes_def)
  then have "hd (encoderune ?r) \<in> set ?F"
    using encoderune_nonempty[of ?r] by (cases "encoderune ?r") auto
  then have "hd (encoderune ?r) = CHR 0x0A \<or> hd (encoderune ?r) = CHR 0x0D" by (rule nl)
  then have r: "?r < 0x80" "encoderune ?r = [char_of ?r]"
    using encoderune_newline by blast+
  have "?r = of_char (last tok)" using last_rune_ascii[OF tok(1) r(1)] .
  then have "char_of ?r = last tok" by simp
  moreover have "char_of ?r = CHR 0x0A \<or> char_of ?r = CHR 0x0D"
    using \<open>hd (encoderune ?r) = CHR 0x0A \<or> hd (encoderune ?r) = CHR 0x0D\<close> r(2) by simp
  ultimately show False using tok(2,3) by simp
qed

lemma decodeStreamURL_never_empty: "fst (decodeStreamURL E html sent) \<noteq> Inr []"
proof
  assume a: "fst (decodeStreamURL E html sent) = Inr []"
  then obtain doc d ds where doc: "parseHTML E html = Some doc" "Find_hidden_div doc = d # ds"
    and tok: "TrimSpace (nodeText d) \<noteq> []" and de: "Deobfuscate (TrimSpace (nodeText d)) = Inr []"
    by (auto simp: decodeStreamURL_def hiddenDivContent_def Let_def
        split: option.splits list.splits if_splits sum.splits)
  show False
    using Deobfuscate_nonempty[OF tok _ _ de] TrimSpace_last[OF tok] by simp
qed

section \<open>The example upstream, stage by stage\<close>

lemma demo_build: "buildEmbedURL demo_request = Inr demo_entry_URL"
  by (simp add: demo_request_def demo_entry_URL_def buildEmbedURL_def Movie_def vidsrcBase_def)

lemma demo_pages_differ: "demo_embed_html \<noteq> demo_prorcp_html"
  by (simp add: demo_embed_html_def demo_prorcp_html_def)

lemma demo_parse:
  "parseHTML (demo_env pl) demo_embed_html = Some demo_embed_doc"
  "parseHTML (demo_env pl) demo_prorcp_html = Some demo_prorcp_doc"
  using demo_pages_differ by (simp_all add: demo_env_def demo_parseHTML_def)

lemma demo_extract_rcp: "extractRCPURL (demo_env pl) demo_embed_html = Inr ''//cloudnestra.com/rcp/abc''"
  by (simp add: extractRCPURL_def demo_parse demo_embed_doc_def Find_player_iframe_def all_nodes_def Attr_def)

lemma demo_extract_prorcp: "extractProRCPURL demo_rcp_html = Inr ''/prorcp/xyz''"
  by (simp add: extractProRCPURL_def demo_rcp_html_def match_at_def prorcp_literal_def quote_def)


lemma TrimSpace_padded:
  assumes "t \<noteq> []" "graphic (hd t)" "graphic (last t)"
  shows "TrimSpace (CHR 0x20 # t @ [CHR 0x0A]) = t"
proof -
  obtain c cs where t: "t = c # cs" using assms(1) by (cases t) auto
  have f1: "find (HasPrefix (CHR 0x20 # t @ [CHR 0x0A])) space_encodings = Some [CHR 0x20]"
    by (simp add: space_encodings_eq)
  have "strip_front space_encodings (t @ [CHR 0x0A]) = t @ [CHR 0x0A]"
    using graphic_no_prefix(1)[of c "cs @ [CHR 0x0A]"] assms(2) t by simp
  then have 1: "strip_front space_encodings (CHR 0x20 # t @ [CHR 0x0A]) = t @ [CHR 0x0A]"
    using f1 by simp
  have f2: "find (HasPrefix (CHR 0x0A # rev t)) (map rev space_encodings) = Some [CHR 0x0A]"
    by (simp add: space_encodings_eq)
  obtain d ds where r: "rev t = d # ds" using assms(1) by (cases "rev t") auto
  then have "d = last t" by (metis last_rev list.sel(1) rev_rev_ident hd_rev)
  then have "find (HasPrefix (d # ds)) (map rev space_encodings) = None"
    using graphic_no_prefix(2) assms(3) by simp
  then have "strip_front (map rev space_encodings) (rev t) = rev t" using r by simp
  then have 2: "strip_front (map rev space_encodings) (CHR 0x0A # rev t) = rev t"
    using f2 by simp
  show ?thesis unfolding TrimSpace_def 1 using 2 by simp
qed

lemma alphabet_graphic: "c \<in> set encodeStd \<Longrightarrow> graphic c"
  by (auto simp: encodeStd_def graphic_def)

lemma encode_head:
  "p \<noteq> [] \<Longrightarrow> spec_base64_encode p \<noteq> [] \<and> hd (spec_base64_encode p) \<in> set encodeStd"
  by (cases p rule: spec_base64_encode.cases) (simp_all add: Let_def enc_in_alphabet sextet_lt)

lemma interleave_x:
  "spec_interleave (map of_char b) (\<lambda>i. 0x78) i = map of_char (concat (map (\<lambda>c. [c, CHR ''x'']) b))"
  by (induction b arbitrary: i) simp_all

lemma obfuscate_x:
  "spec_obfuscate p (\<lambda>i. 0x78) = rev (concat (map (\<lambda>c. [c, CHR ''x'']) (spec_base64_encode p)))"
proof -
  let ?Y = "concat (map (\<lambda>c. [c, CHR ''x'']) (spec_base64_encode p))"
  have a: "\<And>c. c \<in> set (rev ?Y) \<Longrightarrow> (of_char c :: nat) < 0x80"
    using encode_ascii[of _ p] by auto
  have "spec_obfuscate p (\<lambda>i. 0x78) = string_of_runes (map of_char (rev ?Y))"
    by (simp add: spec_obfuscate_def interleave_x rev_map)
  then show ?thesis using string_of_runes_ascii[of "rev ?Y"] a by simp
qed

lemma last_pairs: "b \<noteq> [] \<Longrightarrow> last (concat (map (\<lambda>c. [c, x]) b)) = x"
  by (induction b) auto

lemma obfuscate_x_shape:
  assumes "p \<noteq> []"
  shows "spec_obfuscate p (\<lambda>i. 0x78) \<noteq> []"
    and "graphic (hd (spec_obfuscate p (\<lambda>i. 0x78)))"
    and "graphic (last (spec_obfuscate p (\<lambda>i. 0x78)))"
proof -
  obtain c cs where b: "spec_base64_encode p = c # cs" and c: "c \<in> set encodeStd"
    using encode_head[OF assms] by (cases "spec_base64_encode p") auto
  let ?Y = "concat (map (\<lambda>c. [c, CHR ''x'']) (spec_base64_encode p))"
  have Y: "?Y \<noteq> []" "hd ?Y = c" using b by simp_all
  have l: "last ?Y = CHR ''x''" using b last_pairs[of "spec_base64_encode p" "CHR ''x''"] by simp
  show "spec_obfuscate p (\<lambda>i. 0x78) \<noteq> []" unfolding obfuscate_x using Y by simp
  show "graphic (hd (spec_obfuscate p (\<lambda>i. 0x78)))"
    unfolding obfuscate_x using Y l by (simp add: hd_rev graphic_def)
  show "graphic (last (spec_obfuscate p (\<lambda>i. 0x78)))"
    unfolding obfuscate_x using Y c by (simp add: last_rev alphabet_graphic)
qed


lemma demo_token_trim: "TrimSpace (CHR 0x20 # demo_token @ [CHR 0x0A]) = demo_token"
  and demo_token_nonempty: "demo_token \<noteq> []"
proof -
  have "demo_master \<noteq> []" by (simp add: demo_master_def)
  from obfuscate_x_shape[OF this]
  show "TrimSpace (CHR 0x20 # demo_token @ [CHR 0x0A]) = demo_token" "demo_token \<noteq> []"
    unfolding demo_token_def by (simp_all add: TrimSpace_padded)
qed

lemma demo_token_decodes: "Deobfuscate demo_token = Inr demo_master"
  unfolding demo_token_def by (rule Deobfuscate_obfuscate)

lemma demo_fetch1:
  "fetchContent (demo_env pl) demo_entry_URL [] sent
     = (Inr demo_embed_html, sent @ [\<lparr>req_url = demo_entry_URL, req_referer = []\<rparr>])"
  by (simp add: fetchContent_def demo_env_def demo_clientDo_def StatusOK_def)

lemma demo_fetch2:
  "fetchContent (demo_env pl) ''https://cloudnestra.com/rcp/abc'' [] sent
     = (Inr demo_rcp_html, sent @ [\<lparr>req_url = ''https://cloudnestra.com/rcp/abc'', req_referer = []\<rparr>])"
  by (simp add: fetchContent_def demo_env_def demo_clientDo_def StatusOK_def demo_entry_URL_def)

lemma demo_fetch3:
  "fetchContent (demo_env pl) ''https://cloudnestra.com/prorcp/xyz'' ''https://cloudnestra.com'' sent
     = (Inr demo_prorcp_html,
        sent @ [\<lparr>req_url = ''https://cloudnestra.com/prorcp/xyz'', req_referer = ''https://cloudnestra.com''\<rparr>])"
  by (simp add: fetchContent_def demo_env_def demo_clientDo_def StatusOK_def demo_entry_URL_def)

lemma demo_fetch_script:
  "snd (fetchContent (demo_env pl) ''https://cloudnestra.com/sV05kUlNvOdOxvtC/a.js'' ''https://cloudnestra.com'' sent)
     = sent @ [\<lparr>req_url = ''https://cloudnestra.com/sV05kUlNvOdOxvtC/a.js'',
                req_referer = ''https://cloudnestra.com''\<rparr>]"
  by (simp add: fetchContent_def demo_env_def demo_clientDo_def StatusOK_def demo_entry_URL_def
      demo_master_def)

lemma demo_hidden_div:
  "Find_hidden_div demo_prorcp_doc
     = [Element ''div'' [(''id'', ''xTyBxQyGTA''), (''style'', ''display:none;'')]
          [TextNode ('' '' @ demo_token @ [CHR 0x0A])]]"
  by (simp add: Find_hidden_div_def demo_prorcp_doc_def all_nodes_def)

lemma demo_script: "Attr (Find_script demo_prorcp_doc) ''src'' = Some ''/sV05kUlNvOdOxvtC/a.js''"
  by (simp add: Find_script_def demo_prorcp_doc_def all_nodes_def Attr_def)

lemma demo_decode:
  "decodeStreamURL (demo_env pl) demo_prorcp_html sent
     = (Inr demo_master,
        sent @ [\<lparr>req_url = ''https://cloudnestra.com/sV05kUlNvOdOxvtC/a.js'',
                  req_referer = ''https://cloudnestra.com''\<rparr>])"
  using demo_fetch_script[of pl sent]
  by (simp add: decodeStreamURL_def demo_parse demo_script hiddenDivContent_def demo_hidden_div
      demo_token_trim demo_token_nonempty demo_token_decodes)


lemma demo_lines:
  "Split demo_playlist (CHR 0x0A)
     = [''#EXTM3U'', ''#EXT-X-STREAM-INF:BANDWIDTH=1280000,RESOLUTION=720x480'', ''720p/index.m3u8'',
        ''#EXT-X-STREAM-INF:BANDWIDTH=640000,RESOLUTION=320x240'', ''320p/index.m3u8'']"
  by (simp add: demo_playlist_def)

lemma demo_trims:
  "TrimSpace ''#EXTM3U'' = ''#EXTM3U''"
  "TrimSpace ''#EXT-X-STREAM-INF:BANDWIDTH=1280000,RESOLUTION=720x480''
     = ''#EXT-X-STREAM-INF:BANDWIDTH=1280000,RESOLUTION=720x480''"
  "TrimSpace ''720p/index.m3u8'' = ''720p/index.m3u8''"
  "TrimSpace ''#EXT-X-STREAM-INF:BANDWIDTH=640000,RESOLUTION=320x240''
     = ''#EXT-X-STREAM-INF:BANDWIDTH=640000,RESOLUTION=320x240''"
  "TrimSpace ''320p/index.m3u8'' = ''320p/index.m3u8''"
  "TrimSpace ''#EXT-X-STREAM-INF:BANDWIDTH=1280000'' = ''#EXT-X-STREAM-INF:BANDWIDTH=1280000''"
  "TrimSpace ''RESOLUTION=720x480'' = ''RESOLUTION=720x480''"
  "TrimSpace ''#EXT-X-STREAM-INF:BANDWIDTH=640000'' = ''#EXT-X-STREAM-INF:BANDWIDTH=640000''"
  "TrimSpace ''RESOLUTION=320x240'' = ''RESOLUTION=320x240''"
  by (rule TrimSpace_graphic; simp add: graphic_def)+

lemma demo_attrs:
  "map_get (parseAttributes ''#EXT-X-STREAM-INF:BANDWIDTH=1280000,RESOLUTION=720x480'') ''RESOLUTION'' = ''720x480''"
  "map_get (parseAttributes ''#EXT-X-STREAM-INF:BANDWIDTH=1280000,RESOLUTION=720x480'') ''BANDWIDTH'' = []"
  "map_get (parseAttributes ''#EXT-X-STREAM-INF:BANDWIDTH=640000,RESOLUTION=320x240'') ''RESOLUTION'' = ''320x240''"
  "map_get (parseAttributes ''#EXT-X-STREAM-INF:BANDWIDTH=640000,RESOLUTION=320x240'') ''BANDWIDTH'' = []"
  by (simp_all add: parseAttributes_def map_get_def demo_trims Trim_def)

lemma demo_resolve:
  "resolveRelativeURL (demo_env pl) demo_master ''720p/index.m3u8'' = ''https://cdn.example.com/movie/720p/index.m3u8''"
  "resolveRelativeURL (demo_env pl) demo_master ''320p/index.m3u8'' = ''https://cdn.example.com/movie/320p/index.m3u8''"
  by (simp_all add: resolveRelativeURL_def demo_env_def demo_master_def)

lemma demo_parse_playlist:
  "parseMasterPlaylist (demo_env pl) demo_master demo_playlist
     = Inr [\<lparr>Resolution = ''720x480'', Bandwidth = [],
              URL = ''https://cdn.example.com/movie/720p/index.m3u8''\<rparr>,
            \<lparr>Resolution = ''320x240'', Bandwidth = [],
              URL = ''https://cdn.example.com/movie/320p/index.m3u8''\<rparr>]"
  unfolding parseMasterPlaylist_def demo_lines
  by (simp add: demo_trims demo_attrs demo_resolve)

lemma demo_ResolveVariants:
  "ResolveVariants (demo_env pl) demo_request []
     = (Inr demo_master,
        [\<lparr>req_url = demo_entry_URL, req_referer = []\<rparr>,
         \<lparr>req_url = ''https://cloudnestra.com/rcp/abc'', req_referer = []\<rparr>,
         \<lparr>req_url = ''https://cloudnestra.com/prorcp/xyz'', req_referer = ''https://cloudnestra.com''\<rparr>,
         \<lparr>req_url = ''https://cloudnestra.com/sV05kUlNvOdOxvtC/a.js'',
           req_referer = ''https://cloudnestra.com''\<rparr>])"
  by (simp add: ResolveVariants_def demo_build demo_fetch1 demo_extract_rcp demo_fetch2
      demo_extract_prorcp demo_fetch3 demo_decode)

lemma demo_get_master:
  "clientDo (demo_env pl) sent \<lparr>req_url = demo_master, req_referer = []\<rparr> = Response 200 (Some pl)"
  "newRequestOK (demo_env pl) demo_master"
  by (simp_all add: demo_env_def demo_clientDo_def demo_master_def demo_entry_URL_def)

lemma demo_ResolveStreams:
  "fst (ResolveStreams (demo_env demo_playlist) demo_request [])
     = Inr [\<lparr>Resolution = ''720x480'', Bandwidth = [],
              URL = ''https://cdn.example.com/movie/720p/index.m3u8''\<rparr>,
            \<lparr>Resolution = ''320x240'', Bandwidth = [],
              URL = ''https://cdn.example.com/movie/320p/index.m3u8''\<rparr>]"
  by (simp add: ResolveStreams_def demo_ResolveVariants demo_get_master StatusOK_def
      demo_parse_playlist)

section \<open>Status failures\<close>

lemma fetchContent_UnexpectedStatus:
  assumes "fetchContent E url referer sent = (Inl (UnexpectedStatus u st), sent')"
  shows "u = url \<and> st \<noteq> StatusOK \<and> sent' = sent @ [\<lparr>req_url = url, req_referer = referer\<rparr>]
         \<and> (\<exists>body. clientDo E sent \<lparr>req_url = url, req_referer = referer\<rparr> = Response st body)"
  using assms by (auto simp: fetchContent_def Let_def split: if_splits reply.splits option.splits)

lemma decodeStreamURL_not_status:
  "decodeStreamURL E html sent \<noteq> (Inl (UnexpectedStatus u st), sent')"
  by (auto simp: decodeStreamURL_def Let_def hiddenDivContent_def
      split: option.splits sum.splits list.splits)

lemma extractRCPURL_not_status: "extractRCPURL E html \<noteq> Inl (UnexpectedStatus u st)"
  by (auto simp: extractRCPURL_def split: option.splits)

lemma extractProRCPURL_not_status: "extractProRCPURL html \<noteq> Inl (UnexpectedStatus u st)"
  by (auto simp: extractProRCPURL_def split: option.splits)

lemma buildEmbedURL_not_status: "buildEmbedURL o' \<noteq> Inl (UnexpectedStatus u st)"
  by (auto simp: buildEmbedURL_def)

lemma ResolveVariants_UnexpectedStatus:
  assumes "ResolveVariants E o' sent = (Inl (UnexpectedStatus u st), sent')"
  shows "st \<noteq> StatusOK \<and> (\<exists>pre ref body. sent' = pre @ [\<lparr>req_url = u, req_referer = ref\<rparr>]
           \<and> clientDo E pre \<lparr>req_url = u, req_referer = ref\<rparr> = Response st body)"
  using assms
  by (auto simp: ResolveVariants_def decodeStreamURL_not_status buildEmbedURL_not_status
        extractRCPURL_not_status extractProRCPURL_not_status
      split: sum.splits prod.splits dest!: fetchContent_UnexpectedStatus)

lemma ResolveStreams_UnexpectedStatus:
  assumes "ResolveStreams E o' sent = (Inl (UnexpectedStatus u st), sent')"
  shows "st \<noteq> StatusOK \<and> (\<exists>pre ref body. sent' = pre @ [\<lparr>req_url = u, req_referer = ref\<rparr>]
           \<and> clientDo E pre \<lparr>req_url = u, req_referer = ref\<rparr> = Response st body)"
  using assms
  by (auto simp: ResolveStreams_def Let_def parseMasterPlaylist_def
      split: sum.splits prod.splits if_splits reply.splits option.splits
      dest!: ResolveVariants_UnexpectedStatus)

lemma ResolveStreams_entry_status:
  assumes "buildEmbedURL o' = Inr url" and "newRequestOK E url"
    and "clientDo E sent \<lparr>req_url = url, req_referer = []\<rparr> = Response st body" and "st \<noteq> 200"
  shows "ResolveStreams E o' sent
           = (Inl (UnexpectedStatus url st), sent @ [\<lparr>req_url = url, req_referer = []\<rparr>])"
  using assms by (simp add: ResolveStreams_def ResolveVariants_def fetchContent_def StatusOK_def)

lemma fetchContent_status:
  assumes "newRequestOK E url"
    and "clientDo E sent \<lparr>req_url = url, req_referer = referer\<rparr> = Response st body" and "st \<noteq> 200"
  shows "fetchContent E url referer sent
           = (Inl (UnexpectedStatus url st), sent @ [\<lparr>req_url = url, req_referer = referer\<rparr>])"
  using assms by (simp add: fetchContent_def StatusOK_def)

lemma ResolveStreams_stage1_error:
  assumes "buildEmbedURL o' = Inr entry" and "fetchContent E entry [] sent = (Inr embedHTML, sa)"
    and "extractRCPURL E embedHTML = Inr rcpURL"
    and "fetchContent E (''https:'' @ rcpURL) [] sa = (Inl e, sb)"
  shows "ResolveStreams E o' sent = (Inl e, sb)"
  using assms by (simp add: ResolveStreams_def ResolveVariants_def)

lemma ResolveStreams_stage2_error:
  assumes "buildEmbedURL o' = Inr entry" and "fetchContent E entry [] sent = (Inr embedHTML, sa)"
    and "extractRCPURL E embedHTML = Inr rcpURL"
    and "fetchContent E (''https:'' @ rcpURL) [] sa = (Inr rcpHTML, sb)"
    and "extractProRCPURL rcpHTML = Inr proRCPURL"
    and "fetchContent E (''https://cloudnestra.com'' @ proRCPURL) ''https://cloudnestra.com'' sb = (Inl e, sc)"
  shows "ResolveStreams E o' sent = (Inl e, sc)"
  using assms by (simp add: ResolveStreams_def ResolveVariants_def)

text \<open>The example upstream with one URL answered by 404.\<close>

lemma failing_env:
  "newRequestOK (demo_failing bad) url"
  "parseHTML (demo_failing bad) html = parseHTML (demo_env demo_playlist) html"
  "clientDo (demo_failing bad) sent req
     = (if req_url req = bad then Response 404 None else clientDo (demo_env demo_playlist) sent req)"
  by (simp_all add: demo_failing_def demo_env_def)

lemma failing_fetch:
  "url \<noteq> bad \<Longrightarrow>
     fetchContent (demo_failing bad) url referer sent = fetchContent (demo_env demo_playlist) url referer sent"
  by (simp add: fetchContent_def failing_env) (simp add: demo_env_def)

lemma failing_extract:
  "extractRCPURL (demo_failing bad) html = extractRCPURL (demo_env demo_playlist) html"
  by (simp add: extractRCPURL_def failing_env)

lemma failing_decode:
  "bad \<noteq> ''https://cloudnestra.com/sV05kUlNvOdOxvtC/a.js'' \<Longrightarrow>
     decodeStreamURL (demo_failing bad) demo_prorcp_html sent
       = decodeStreamURL (demo_env demo_playlist) demo_prorcp_html sent"
  using failing_fetch[of "''https://cloudnestra.com/sV05kUlNvOdOxvtC/a.js''" bad]
  by (simp add: decodeStreamURL_def failing_env demo_parse demo_script)

lemma failing_ResolveVariants:
  "ResolveVariants (demo_failing demo_master) demo_request []
     = (Inr demo_master,
        [\<lparr>req_url = demo_entry_URL, req_referer = []\<rparr>,
         \<lparr>req_url = ''https://cloudnestra.com/rcp/abc'', req_referer = []\<rparr>,
         \<lparr>req_url = ''https://cloudnestra.com/prorcp/xyz'', req_referer = ''https://cloudnestra.com''\<rparr>,
         \<lparr>req_url = ''https://cloudnestra.com/sV05kUlNvOdOxvtC/a.js'',
           req_referer = ''https://cloudnestra.com''\<rparr>])"
proof -
  have d: "demo_entry_URL \<noteq> demo_master" "''https://cloudnestra.com/rcp/abc'' \<noteq> demo_master"
    "''https://cloudnestra.com/prorcp/xyz'' \<noteq> demo_master"
    "demo_master \<noteq> ''https://cloudnestra.com/sV05kUlNvOdOxvtC/a.js''"
    by (simp_all add: demo_master_def demo_entry_URL_def)
  show ?thesis
    by (simp add: ResolveVariants_def demo_build failing_fetch d demo_fetch1 failing_extract
        demo_extract_rcp demo_fetch2 demo_extract_prorcp demo_fetch3 failing_decode demo_decode)
qed

lemma demo_hidden_content: "hiddenDivContent demo_prorcp_doc = Inr demo_token"
  by (simp add: hiddenDivContent_def demo_hidden_div demo_token_trim)

lemma demo_script_reply:
  "clientDo (demo_env pl) sent \<lparr>req_url = ''https://cloudnestra.com/sV05kUlNvOdOxvtC/a.js'',
                                  req_referer = ''https://cloudnestra.com''\<rparr> = Response 404 None"
  "newRequestOK (demo_env pl) url"
  by (simp_all add: demo_env_def demo_clientDo_def demo_entry_URL_def demo_master_def)

text \<open>
  C4 (as amended): a fetch whose response has a status other than 200, the other 2xx codes
  included, fails with \<open>UnexpectedStatus\<close> carrying the URL and the status, after exactly one
  request; with a status of 200 the fetch returns the body (or the error of reading it), never
  a status failure. Every stage that needs the page aborts the pipeline at once: when the
  entry page, the stage-1 page, the stage-2 page or the manifest is answered with another
  status, the pipeline ends in that \<open>UnexpectedStatus\<close>, and the failing request is the last
  request sent. Conversely, whenever the pipeline ends in \<open>UnexpectedStatus\<close> of a URL and a
  status, the last request sent is the one to that URL, answered with that status, which is
  not 200. The download of the script inside the decode stage is the one fetch whose failure
  is not final: whatever its status, the stage sends that one request and goes on to the
  hidden div, and its result does not depend on the answer.
\<close>

theorem status_failure_is_final:
  "(newRequestOK E url \<and> clientDo E sent \<lparr>req_url = url, req_referer = referer\<rparr> = Response st body \<longrightarrow>
      (st \<noteq> 200 \<longrightarrow>
         fetchContent E url referer sent
           = (Inl (UnexpectedStatus url st), sent @ [\<lparr>req_url = url, req_referer = referer\<rparr>])) \<and>
      (st = 200 \<longrightarrow>
         fst (fetchContent E url referer sent)
           = (case body of None \<Rightarrow> Inl (ReadingBody url) | Some page \<Rightarrow> Inr page))) \<and>
   (buildEmbedURL o' = Inr url \<and> newRequestOK E url
      \<and> clientDo E sent \<lparr>req_url = url, req_referer = []\<rparr> = Response st body \<and> st \<noteq> 200 \<longrightarrow>
      ResolveStreams E o' sent
        = (Inl (UnexpectedStatus url st), sent @ [\<lparr>req_url = url, req_referer = []\<rparr>])) \<and>
   (buildEmbedURL o' = Inr entry
      \<and> fetchContent E entry [] sent = (Inr embedHTML, sa)
      \<and> extractRCPURL E embedHTML = Inr rcpURL
      \<and> newRequestOK E (''https:'' @ rcpURL)
      \<and> clientDo E sa \<lparr>req_url = ''https:'' @ rcpURL, req_referer = []\<rparr> = Response st body
      \<and> st \<noteq> 200 \<longrightarrow>
      ResolveStreams E o' sent
        = (Inl (UnexpectedStatus (''https:'' @ rcpURL) st),
           sa @ [\<lparr>req_url = ''https:'' @ rcpURL, req_referer = []\<rparr>])) \<and>
   (buildEmbedURL o' = Inr entry
      \<and> fetchContent E entry [] sent = (Inr embedHTML, sa)
      \<and> extractRCPURL E embedHTML = Inr rcpURL
      \<and> fetchContent E (''https:'' @ rcpURL) [] sa = (Inr rcpHTML, sb)
      \<and> extractProRCPURL rcpHTML = Inr proRCPURL
      \<and> newRequestOK E (''https://cloudnestra.com'' @ proRCPURL)
      \<and> clientDo E sb \<lparr>req_url = ''https://cloudnestra.com'' @ proRCPURL,
                         req_referer = ''https://cloudnestra.com''\<rparr> = Response st body
      \<and> st \<noteq> 200 \<longrightarrow>
      ResolveStreams E o' sent
        = (Inl (UnexpectedStatus (''https://cloudnestra.com'' @ proRCPURL) st),
           sb @ [\<lparr>req_url = ''https://cloudnestra.com'' @ proRCPURL,
                   req_referer = ''https://cloudnestra.com''\<rparr>])) \<and>
   (ResolveVariants E o' sent = (Inr masterURL, sv)
      \<and> newRequestOK E masterURL
      \<and> clientDo E sv \<lparr>req_url = masterURL, req_referer = []\<rparr> = Response st body
      \<and> st \<noteq> 200 \<longrightarrow>
      ResolveStreams E o' sent
        = (Inl (UnexpectedStatus masterURL st), sv @ [\<lparr>req_url = masterURL, req_referer = []\<rparr>])) \<and>
   (parseHTML E html = Some doc \<and> Attr (Find_script doc) ''src'' = Some src
      \<and> newRequestOK E (''https://cloudnestra.com'' @ src)
      \<and> clientDo E sent \<lparr>req_url = ''https://cloudnestra.com'' @ src,
                           req_referer = ''https://cloudnestra.com''\<rparr> = Response st body \<longrightarrow>
      decodeStreamURL E html sent
        = ((case hiddenDivContent doc of
              Inl e \<Rightarrow> Inl e
            | Inr divContent \<Rightarrow>
                if divContent \<noteq> [] then
                  (case Deobfuscate divContent of
                     Inl e \<Rightarrow> Inl DeobfuscatingContent
                   | Inr decodedURL \<Rightarrow> Inr decodedURL)
                else Inl MissingComponents),
           sent @ [\<lparr>req_url = ''https://cloudnestra.com'' @ src,
                     req_referer = ''https://cloudnestra.com''\<rparr>])) \<and>
   (ResolveStreams E o' sent = (Inl (UnexpectedStatus u st'), sent') \<longrightarrow>
      st' \<noteq> 200 \<and>
      (\<exists>pre ref body'. sent' = pre @ [\<lparr>req_url = u, req_referer = ref\<rparr>]
          \<and> clientDo E pre \<lparr>req_url = u, req_referer = ref\<rparr> = Response st' body'))"
proof (intro conjI impI)
  assume "newRequestOK E url \<and> clientDo E sent \<lparr>req_url = url, req_referer = referer\<rparr> = Response st body"
    and "st \<noteq> 200"
  then show "fetchContent E url referer sent
           = (Inl (UnexpectedStatus url st), sent @ [\<lparr>req_url = url, req_referer = referer\<rparr>])"
    by (simp add: fetchContent_def StatusOK_def)
next
  assume "newRequestOK E url \<and> clientDo E sent \<lparr>req_url = url, req_referer = referer\<rparr> = Response st body"
    and "st = 200"
  then show "fst (fetchContent E url referer sent)
           = (case body of None \<Rightarrow> Inl (ReadingBody url) | Some page \<Rightarrow> Inr page)"
    by (simp add: fetchContent_def StatusOK_def Let_def split: option.splits)
next
  assume "buildEmbedURL o' = Inr url \<and> newRequestOK E url
      \<and> clientDo E sent \<lparr>req_url = url, req_referer = []\<rparr> = Response st body \<and> st \<noteq> 200"
  then show "ResolveStreams E o' sent
        = (Inl (UnexpectedStatus url st), sent @ [\<lparr>req_url = url, req_referer = []\<rparr>])"
    using ResolveStreams_entry_status by blast
next
  assume "buildEmbedURL o' = Inr entry
      \<and> fetchContent E entry [] sent = (Inr embedHTML, sa)
      \<and> extractRCPURL E embedHTML = Inr rcpURL
      \<and> newRequestOK E (''https:'' @ rcpURL)
      \<and> clientDo E sa \<lparr>req_url = ''https:'' @ rcpURL, req_referer = []\<rparr> = Response st body
      \<and> st \<noteq> 200"
  then show "ResolveStreams E o' sent
        = (Inl (UnexpectedStatus (''https:'' @ rcpURL) st),
           sa @ [\<lparr>req_url = ''https:'' @ rcpURL, req_referer = []\<rparr>])"
    using ResolveStreams_stage1_error[of o' entry E sent embedHTML sa rcpURL]
      fetchContent_status[of E "''https:'' @ rcpURL" sa "[]" st body]
    by blast
next
  assume "buildEmbedURL o' = Inr entry
      \<and> fetchContent E entry [] sent = (Inr embedHTML, sa)
      \<and> extractRCPURL E embedHTML = Inr rcpURL
      \<and> fetchContent E (''https:'' @ rcpURL) [] sa = (Inr rcpHTML, sb)
      \<and> extractProRCPURL rcpHTML = Inr proRCPURL
      \<and> newRequestOK E (''https://cloudnestra.com'' @ proRCPURL)
      \<and> clientDo E sb \<lparr>req_url = ''https://cloudnestra.com'' @ proRCPURL,
                         req_referer = ''https://cloudnestra.com''\<rparr> = Response st body
      \<and> st \<noteq> 200"
  then show "ResolveStreams E o' sent
        = (Inl (UnexpectedStatus (''https://cloudnestra.com'' @ proRCPURL) st),
           sb @ [\<lparr>req_url = ''https://cloudnestra.com'' @ proRCPURL,
                   req_referer = ''https://cloudnestra.com''\<rparr>])"
    using ResolveStreams_stage2_error[of o' entry E sent embedHTML sa rcpURL rcpHTML sb proRCPURL]
      fetchContent_status[of E "''https://cloudnestra.com'' @ proRCPURL" sb "''https://cloudnestra.com''" st body]
    by blast
next
  assume "ResolveVariants E o' sent = (Inr masterURL, sv)
      \<and> newRequestOK E masterURL
      \<and> clientDo E sv \<lparr>req_url = masterURL, req_referer = []\<rparr> = Response st body
      \<and> st \<noteq> 200"
  then show "ResolveStreams E o' sent
        = (Inl (UnexpectedStatus masterURL st), sv @ [\<lparr>req_url = masterURL, req_referer = []\<rparr>])"
    by (simp add: ResolveStreams_def StatusOK_def)
next
  assume "parseHTML E html = Some doc \<and> Attr (Find_script doc) ''src'' = Some src
      \<and> newRequestOK E (''https://cloudnestra.com'' @ src)
      \<and> clientDo E sent \<lparr>req_url = ''https://cloudnestra.com'' @ src,
                           req_referer = ''https://cloudnestra.com''\<rparr> = Response st body"
  then show "decodeStreamURL E html sent
        = ((case hiddenDivContent doc of
              Inl e \<Rightarrow> Inl e
            | Inr divContent \<Rightarrow>
                if divContent \<noteq> [] then
                  (case Deobfuscate divContent of
                     Inl e \<Rightarrow> Inl DeobfuscatingContent
                   | Inr decodedURL \<Rightarrow> Inr decodedURL)
                else Inl MissingComponents),
           sent @ [\<lparr>req_url = ''https://cloudnestra.com'' @ src,
                     req_referer = ''https://cloudnestra.com''\<rparr>])"
    by (simp add: decodeStreamURL_def fetchContent_def Let_def split: sum.splits option.splits)
next
  assume a: "ResolveStreams E o' sent = (Inl (UnexpectedStatus u st'), sent')"
  show "st' \<noteq> 200"
    using ResolveStreams_UnexpectedStatus[OF a] by (simp add: StatusOK_def)
  show "\<exists>pre ref body'. sent' = pre @ [\<lparr>req_url = u, req_referer = ref\<rparr>]
          \<and> clientDo E pre \<lparr>req_url = u, req_referer = ref\<rparr> = Response st' body'"
    using ResolveStreams_UnexpectedStatus[OF a] by blast
qed

lemma movie_entry_URL:
  "buildEmbedURL \<lparr>IMDBID = ''tt0137523'', Type = ''movie'', Season = 0, Episode = 0\<rparr>
     = Inr ''https://vidsrc-embed.ru/embed/movie?imdb=tt0137523''"
  by (simp add: buildEmbedURL_def Movie_def vidsrcBase_def)

theorem status_failure_is_final_witness:
  "fetchContent (env_status 404) ''https://cloudnestra.com/rcp/abc'' [] []
     = (Inl (UnexpectedStatus ''https://cloudnestra.com/rcp/abc'' 404),
        [\<lparr>req_url = ''https://cloudnestra.com/rcp/abc'', req_referer = []\<rparr>]) \<and>
   fst (fetchContent (env_status 200) ''https://cloudnestra.com/rcp/abc'' [] []) = Inr [] \<and>
   ResolveStreams (env_status 404) \<lparr>IMDBID = ''tt0137523'', Type = ''movie'', Season = 0, Episode = 0\<rparr> []
     = (Inl (UnexpectedStatus ''https://vidsrc-embed.ru/embed/movie?imdb=tt0137523'' 404),
        [\<lparr>req_url = ''https://vidsrc-embed.ru/embed/movie?imdb=tt0137523'', req_referer = []\<rparr>]) \<and>
   ResolveStreams (demo_failing ''https://cloudnestra.com/rcp/abc'') demo_request []
     = (Inl (UnexpectedStatus ''https://cloudnestra.com/rcp/abc'' 404),
        [\<lparr>req_url = demo_entry_URL, req_referer = []\<rparr>,
         \<lparr>req_url = ''https://cloudnestra.com/rcp/abc'', req_referer = []\<rparr>]) \<and>
   ResolveStreams (demo_failing ''https://cloudnestra.com/prorcp/xyz'') demo_request []
     = (Inl (UnexpectedStatus ''https://cloudnestra.com/prorcp/xyz'' 404),
        [\<lparr>req_url = demo_entry_URL, req_referer = []\<rparr>,
         \<lparr>req_url = ''https://cloudnestra.com/rcp/abc'', req_referer = []\<rparr>,
         \<lparr>req_url = ''https://cloudnestra.com/prorcp/xyz'', req_referer = ''https://cloudnestra.com''\<rparr>]) \<and>
   ResolveStreams (demo_failing demo_master) demo_request []
     = (Inl (UnexpectedStatus demo_master 404),
        [\<lparr>req_url = demo_entry_URL, req_referer = []\<rparr>,
         \<lparr>req_url = ''https://cloudnestra.com/rcp/abc'', req_referer = []\<rparr>,
         \<lparr>req_url = ''https://cloudnestra.com/prorcp/xyz'', req_referer = ''https://cloudnestra.com''\<rparr>,
         \<lparr>req_url = ''https://cloudnestra.com/sV05kUlNvOdOxvtC/a.js'',
           req_referer = ''https://cloudnestra.com''\<rparr>,
         \<lparr>req_url = demo_master, req_referer = []\<rparr>]) \<and>
   decodeStreamURL (demo_env demo_playlist) demo_prorcp_html []
     = (Inr demo_master,
        [\<lparr>req_url = ''https://cloudnestra.com/sV05kUlNvOdOxvtC/a.js'',
           req_referer = ''https://cloudnestra.com''\<rparr>])"
proof -
  have r: "\<And>st sent req. clientDo (env_status st) sent req = Response st (Some [])"
    and n: "\<And>st url. newRequestOK (env_status st) url"
    by (simp_all add: env_status_def)
  have d: "demo_entry_URL \<noteq> ''https://cloudnestra.com/rcp/abc''"
    "demo_entry_URL \<noteq> ''https://cloudnestra.com/prorcp/xyz''"
    by (simp_all add: demo_entry_URL_def)
  have 1: "fetchContent (env_status 404) ''https://cloudnestra.com/rcp/abc'' [] []
     = (Inl (UnexpectedStatus ''https://cloudnestra.com/rcp/abc'' 404),
        [\<lparr>req_url = ''https://cloudnestra.com/rcp/abc'', req_referer = []\<rparr>])"
    using status_failure_is_final [where E = "env_status 404" and url = "''https://cloudnestra.com/rcp/abc''"
        and referer = "[]" and sent = "[]" and st = 404 and body = "Some []"]
      r n by simp
  have 2: "fst (fetchContent (env_status 200) ''https://cloudnestra.com/rcp/abc'' [] []) = Inr []"
    using status_failure_is_final [where E = "env_status 200" and url = "''https://cloudnestra.com/rcp/abc''"
        and referer = "[]" and sent = "[]" and st = 200 and body = "Some []"]
      r n by simp
  have 3: "ResolveStreams (env_status 404) \<lparr>IMDBID = ''tt0137523'', Type = ''movie'', Season = 0, Episode = 0\<rparr> []
     = (Inl (UnexpectedStatus ''https://vidsrc-embed.ru/embed/movie?imdb=tt0137523'' 404),
        [\<lparr>req_url = ''https://vidsrc-embed.ru/embed/movie?imdb=tt0137523'', req_referer = []\<rparr>])"
    using status_failure_is_final [where E = "env_status 404"
        and url = "''https://vidsrc-embed.ru/embed/movie?imdb=tt0137523''"
        and sent = "[]" and st = 404 and body = "Some []"
        and o' = "\<lparr>IMDBID = ''tt0137523'', Type = ''movie'', Season = 0, Episode = 0\<rparr>"]
      r n movie_entry_URL by simp
  have 4: "ResolveStreams (demo_failing ''https://cloudnestra.com/rcp/abc'') demo_request []
     = (Inl (UnexpectedStatus ''https://cloudnestra.com/rcp/abc'' 404),
        [\<lparr>req_url = demo_entry_URL, req_referer = []\<rparr>,
         \<lparr>req_url = ''https://cloudnestra.com/rcp/abc'', req_referer = []\<rparr>])"
    using status_failure_is_final [where E = "demo_failing ''https://cloudnestra.com/rcp/abc''"
        and o' = demo_request and sent = "[]" and entry = demo_entry_URL
        and embedHTML = demo_embed_html and sa = "[\<lparr>req_url = demo_entry_URL, req_referer = []\<rparr>]"
        and rcpURL = "''//cloudnestra.com/rcp/abc''" and st = 404 and body = None]
    by (simp add: demo_build failing_fetch d demo_fetch1 failing_extract demo_extract_rcp failing_env)
  have 5: "ResolveStreams (demo_failing ''https://cloudnestra.com/prorcp/xyz'') demo_request []
     = (Inl (UnexpectedStatus ''https://cloudnestra.com/prorcp/xyz'' 404),
        [\<lparr>req_url = demo_entry_URL, req_referer = []\<rparr>,
         \<lparr>req_url = ''https://cloudnestra.com/rcp/abc'', req_referer = []\<rparr>,
         \<lparr>req_url = ''https://cloudnestra.com/prorcp/xyz'', req_referer = ''https://cloudnestra.com''\<rparr>])"
    using status_failure_is_final [where E = "demo_failing ''https://cloudnestra.com/prorcp/xyz''"
        and o' = demo_request and sent = "[]" and entry = demo_entry_URL
        and embedHTML = demo_embed_html and sa = "[\<lparr>req_url = demo_entry_URL, req_referer = []\<rparr>]"
        and rcpURL = "''//cloudnestra.com/rcp/abc''" and rcpHTML = demo_rcp_html
        and sb = "[\<lparr>req_url = demo_entry_URL, req_referer = []\<rparr>,
                   \<lparr>req_url = ''https://cloudnestra.com/rcp/abc'', req_referer = []\<rparr>]"
        and proRCPURL = "''/prorcp/xyz''" and st = 404 and body = None]
    by (simp add: demo_build failing_fetch d demo_fetch1 failing_extract demo_extract_rcp
        demo_fetch2 demo_extract_prorcp failing_env)
  have 6: "ResolveStreams (demo_failing demo_master) demo_request []
     = (Inl (UnexpectedStatus demo_master 404),
        [\<lparr>req_url = demo_entry_URL, req_referer = []\<rparr>,
         \<lparr>req_url = ''https://cloudnestra.com/rcp/abc'', req_referer = []\<rparr>,
         \<lparr>req_url = ''https://cloudnestra.com/prorcp/xyz'', req_referer = ''https://cloudnestra.com''\<rparr>,
         \<lparr>req_url = ''https://cloudnestra.com/sV05kUlNvOdOxvtC/a.js'',
           req_referer = ''https://cloudnestra.com''\<rparr>,
         \<lparr>req_url = demo_master, req_referer = []\<rparr>])"
    using status_failure_is_final [where E = "demo_failing demo_master"
        and o' = demo_request and sent = "[]" and masterURL = demo_master
        and sv = "[\<lparr>req_url = demo_entry_URL, req_referer = []\<rparr>,
                   \<lparr>req_url = ''https://cloudnestra.com/rcp/abc'', req_referer = []\<rparr>,
                   \<lparr>req_url = ''https://cloudnestra.com/prorcp/xyz'', req_referer = ''https://cloudnestra.com''\<rparr>,
                   \<lparr>req_url = ''https://cloudnestra.com/sV05kUlNvOdOxvtC/a.js'',
                     req_referer = ''https://cloudnestra.com''\<rparr>]"
        and st = 404 and body = None]
    by (simp add: failing_ResolveVariants failing_env)
  have 7: "decodeStreamURL (demo_env demo_playlist) demo_prorcp_html []
     = (Inr demo_master,
        [\<lparr>req_url = ''https://cloudnestra.com/sV05kUlNvOdOxvtC/a.js'',
           req_referer = ''https://cloudnestra.com''\<rparr>])"
    using status_failure_is_final [where E = "demo_env demo_playlist" and html = demo_prorcp_html
        and doc = demo_prorcp_doc and src = "''/sV05kUlNvOdOxvtC/a.js''" and sent = "[]"
        and st = 404 and body = None]
    by (simp add: demo_parse demo_script demo_script_reply demo_hidden_content demo_token_nonempty
        demo_token_decodes)
  show ?thesis using 1 2 3 4 5 6 7 by simp
qed

text \<open>
  The claim as stated exempts every 2xx status; the program accepts 200 only, and a 204 is a
  status failure.
\<close>

theorem fetchContent_rejects_204:
  "fetchContent (env_status 204) ''https://cloudnestra.com/rcp/abc'' [] []
     = (Inl (UnexpectedStatus ''https://cloudnestra.com/rcp/abc'' 204),
        [\<lparr>req_url = ''https://cloudnestra.com/rcp/abc'', req_referer = []\<rparr>])"
  by (simp add: fetchContent_def env_status_def StatusOK_def)

section \<open>Claims about the playlist parser\<close>

lemma upt_Suc_shift: "[0..<Suc n] = 0 # map Suc [0..<n]"
  by (simp add: upt_conv_Cons map_Suc_upt del: upt_Suc)

lemma variants_loop_step:
  "variants_loop E base (l # rest) =
     (if HasPrefix (TrimSpace l) ''#EXT-X-STREAM-INF'' \<and> rest \<noteq> []
          \<and> TrimSpace (rest ! 0) \<noteq> [] \<and> \<not> HasPrefix (TrimSpace (rest ! 0)) ''#''
      then [\<lparr>Resolution = map_get (parseAttributes (TrimSpace l)) ''RESOLUTION'',
             Bandwidth = map_get (parseAttributes (TrimSpace l)) ''BANDWIDTH'',
             URL = resolveRelativeURL E base (TrimSpace (rest ! 0))\<rparr>]
      else []) @ variants_loop E base rest"
  by (cases rest) (simp_all add: Let_def)

lemma variants_loop_index:
  "variants_loop E base lines =
     map (\<lambda>i. \<lparr>Resolution = map_get (parseAttributes (TrimSpace (lines ! i))) ''RESOLUTION'',
               Bandwidth = map_get (parseAttributes (TrimSpace (lines ! i))) ''BANDWIDTH'',
               URL = resolveRelativeURL E base (TrimSpace (lines ! Suc i))\<rparr>)
       (filter (\<lambda>i. HasPrefix (TrimSpace (lines ! i)) ''#EXT-X-STREAM-INF'' \<and> Suc i < length lines
                  \<and> TrimSpace (lines ! Suc i) \<noteq> [] \<and> \<not> HasPrefix (TrimSpace (lines ! Suc i)) ''#'')
          [0..<length lines])"
proof (induction lines)
  case Nil
  show ?case by simp
next
  case (Cons l rest)
  have len: "length (l # rest) = Suc (length rest)" by simp
  show ?case
    unfolding len upt_Suc_shift variants_loop_step
    by (simp add: Cons.IH filter_map o_def del: upt_Suc)
qed

text \<open>
  C3 (as amended): for every playlist text and base URL, the parser takes as the URL reference
  of a stream-info tag the line that immediately follows the tag line, when that line, trimmed,
  is neither blank nor starts with \<open>#\<close>. When both the base URL and that line parse as URLs,
  the variant's URL is the reference resolved against the base by \<open>ResolveReference\<close>; when
  one of the two does not parse, it is the trimmed line itself, unresolved. A tag whose next
  line is blank or a comment, or that is the last line, gives no variant and no error; the
  variants keep the order of the text, and the only error is \<open>NoStreamVariants\<close> when no tag
  gives a variant.
\<close>

theorem playlist_takes_next_line:
  "parseMasterPlaylist E base body =
     (let lines = Split body (CHR 0x0A);
          taken = filter (\<lambda>i. HasPrefix (TrimSpace (lines ! i)) ''#EXT-X-STREAM-INF''
                              \<and> Suc i < length lines
                              \<and> TrimSpace (lines ! Suc i) \<noteq> []
                              \<and> \<not> HasPrefix (TrimSpace (lines ! Suc i)) ''#'')
                    [0..<length lines]
      in if taken = [] then Inl (NoStreamVariants base)
         else Inr (map (\<lambda>i. \<lparr>Resolution = map_get (parseAttributes (TrimSpace (lines ! i))) ''RESOLUTION'',
                              Bandwidth = map_get (parseAttributes (TrimSpace (lines ! i))) ''BANDWIDTH'',
                              URL = (case urlParse E base of
                                       None \<Rightarrow> TrimSpace (lines ! Suc i)
                                     | Some b \<Rightarrow>
                                         (case urlParse E (TrimSpace (lines ! Suc i)) of
                                            None \<Rightarrow> TrimSpace (lines ! Suc i)
                                          | Some r \<Rightarrow> resolveReference E b r))\<rparr>)
                     taken))"
  unfolding parseMasterPlaylist_def Let_def
  by (subst (1 2) variants_loop_index) (simp add: resolveRelativeURL_def)

lemma upt_5: "[0..<5] = [0, 1, 2, 3, 4::nat]"
  by (simp add: upt_rec)

text \<open>
  The first playlist is the example of the specification. In the second the line after the tag
  holds an invalid escape, which \<open>url.Parse\<close> refuses: the variant's URL is that line itself.
\<close>

lemma demo_urlParse:
  "urlParse (demo_env pl) demo_master = Some demo_master"
  "urlParse (demo_env pl) ''720p/index.m3u8'' = Some ''720p/index.m3u8''"
  "urlParse (demo_env pl) ''320p/index.m3u8'' = Some ''320p/index.m3u8''"
  "urlParse (demo_env pl) ''%zz'' = None"
  "resolveReference (demo_env pl) demo_master ''720p/index.m3u8'' = ''https://cdn.example.com/movie/720p/index.m3u8''"
  "resolveReference (demo_env pl) demo_master ''320p/index.m3u8'' = ''https://cdn.example.com/movie/320p/index.m3u8''"
  by (simp_all add: demo_env_def demo_master_def)

lemma bad_escape_lines:
  "Split (''#EXT-X-STREAM-INF:BANDWIDTH=1,RESOLUTION=1x1'' @ [CHR 0x0A] @ ''%zz'') (CHR 0x0A)
     = [''#EXT-X-STREAM-INF:BANDWIDTH=1,RESOLUTION=1x1'', ''%zz'']"
  by simp

lemma bad_escape_trims:
  "TrimSpace ''#EXT-X-STREAM-INF:BANDWIDTH=1,RESOLUTION=1x1'' = ''#EXT-X-STREAM-INF:BANDWIDTH=1,RESOLUTION=1x1''"
  "TrimSpace ''%zz'' = ''%zz''"
  "TrimSpace ''#EXT-X-STREAM-INF:BANDWIDTH=1'' = ''#EXT-X-STREAM-INF:BANDWIDTH=1''"
  "TrimSpace ''RESOLUTION=1x1'' = ''RESOLUTION=1x1''"
  by (rule TrimSpace_graphic; simp add: graphic_def)+

lemma bad_escape_attrs:
  "map_get (parseAttributes ''#EXT-X-STREAM-INF:BANDWIDTH=1,RESOLUTION=1x1'') ''RESOLUTION'' = ''1x1''"
  "map_get (parseAttributes ''#EXT-X-STREAM-INF:BANDWIDTH=1,RESOLUTION=1x1'') ''BANDWIDTH'' = []"
  by (simp_all add: parseAttributes_def map_get_def bad_escape_trims Trim_def)

theorem playlist_takes_next_line_witness:
  "parseMasterPlaylist (demo_env demo_playlist) demo_master demo_playlist
     = Inr [\<lparr>Resolution = ''720x480'', Bandwidth = [],
              URL = ''https://cdn.example.com/movie/720p/index.m3u8''\<rparr>,
            \<lparr>Resolution = ''320x240'', Bandwidth = [],
              URL = ''https://cdn.example.com/movie/320p/index.m3u8''\<rparr>] \<and>
   parseMasterPlaylist (demo_env demo_playlist) demo_master
       (''#EXT-X-STREAM-INF:BANDWIDTH=1,RESOLUTION=1x1'' @ [CHR 0x0A] @ ''%zz'')
     = Inr [\<lparr>Resolution = ''1x1'', Bandwidth = [], URL = ''%zz''\<rparr>]"
  unfolding playlist_takes_next_line [of "demo_env demo_playlist" demo_master demo_playlist]
    playlist_takes_next_line [of "demo_env demo_playlist" demo_master
      "''#EXT-X-STREAM-INF:BANDWIDTH=1,RESOLUTION=1x1'' @ [CHR 0x0A] @ ''%zz''"]
    demo_lines bad_escape_lines
  by (simp add: Let_def upt_5 demo_trims demo_attrs demo_urlParse bad_escape_trims bad_escape_attrs)

lemma TrimSpace_examples:
  "TrimSpace ''#EXT-X-STREAM-INF:BANDWIDTH=1'' = ''#EXT-X-STREAM-INF:BANDWIDTH=1''"
  "TrimSpace ''v.m3u8'' = ''v.m3u8''"
  by (rule TrimSpace_graphic; simp add: graphic_def)+

text \<open>
  The claim as stated lets blank and comment lines stand between the tag and its URL line.
  With one blank line in between, the next non-blank line that is not a comment is
  \<open>v.m3u8\<close>, and the parser finds no variant.
\<close>

theorem playlist_does_not_skip_blank_lines:
  "spec_url_line [[], ''v.m3u8''] = Some ''v.m3u8'' \<and>
   parseMasterPlaylist (env_page []) ''https://h/m.m3u8''
       (''#EXT-X-STREAM-INF:BANDWIDTH=1'' @ [CHR 0x0A, CHR 0x0A] @ ''v.m3u8'')
     = Inl (NoStreamVariants ''https://h/m.m3u8'')"
  by (simp add: spec_url_line_def parseMasterPlaylist_def TrimSpace_Nil TrimSpace_examples)

section \<open>An empty result is an error\<close>

lemma variants_loop_no_tag:
  "list_all (\<lambda>l. \<not> HasPrefix (TrimSpace l) ''#EXT-X-STREAM-INF'') lines \<Longrightarrow>
   variants_loop E base lines = []"
  by (induction lines) (simp_all add: Let_def)

lemma parseMasterPlaylist_nonempty: "parseMasterPlaylist E base body = Inr vs \<Longrightarrow> vs \<noteq> []"
  by (auto simp: parseMasterPlaylist_def Let_def split: if_splits)

lemma ResolveStreams_nonempty: "ResolveStreams E o' sent = (Inr vs, sent') \<Longrightarrow> vs \<noteq> []"
  by (auto simp: ResolveStreams_def Let_def
      split: prod.splits sum.splits if_splits reply.splits option.splits
      dest: parseMasterPlaylist_nonempty)

text \<open>
  C8: a manifest from which no variant is parsed, in particular one with no line that starts
  with \<open>#EXT-X-STREAM-INF\<close>, makes the parser and the pipeline fail with
  \<open>NoStreamVariants\<close> (the kind \<open>NoVariantsFound\<close>) carrying the manifest URL; whenever
  the pipeline succeeds, the list of variants it returns is not empty.
\<close>

theorem no_variants_is_an_error:
  "(list_all (\<lambda>l. \<not> HasPrefix (TrimSpace l) ''#EXT-X-STREAM-INF'') (Split body (CHR 0x0A)) \<longrightarrow>
      variants_loop E base (Split body (CHR 0x0A)) = []) \<and>
   (variants_loop E base (Split body (CHR 0x0A)) = [] \<longrightarrow>
      parseMasterPlaylist E base body = Inl (NoStreamVariants base)
      \<and> kind_of (NoStreamVariants base) = NoVariantsFound) \<and>
   (ResolveVariants E o' sent = (Inr base, s) \<and> newRequestOK E base
      \<and> clientDo E s \<lparr>req_url = base, req_referer = []\<rparr> = Response 200 (Some body)
      \<and> variants_loop E base (Split body (CHR 0x0A)) = [] \<longrightarrow>
      ResolveStreams E o' sent
        = (Inl (NoStreamVariants base), s @ [\<lparr>req_url = base, req_referer = []\<rparr>])) \<and>
   (ResolveStreams E o' sent = (Inr vs, sent') \<longrightarrow> vs \<noteq> [])"
proof (intro conjI impI)
  assume "list_all (\<lambda>l. \<not> HasPrefix (TrimSpace l) ''#EXT-X-STREAM-INF'') (Split body (CHR 0x0A))"
  then show "variants_loop E base (Split body (CHR 0x0A)) = []" by (rule variants_loop_no_tag)
next
  assume "variants_loop E base (Split body (CHR 0x0A)) = []"
  then show "parseMasterPlaylist E base body = Inl (NoStreamVariants base)"
    by (simp add: parseMasterPlaylist_def)
next
  show "kind_of (NoStreamVariants base) = NoVariantsFound" by simp
next
  assume "ResolveVariants E o' sent = (Inr base, s) \<and> newRequestOK E base
      \<and> clientDo E s \<lparr>req_url = base, req_referer = []\<rparr> = Response 200 (Some body)
      \<and> variants_loop E base (Split body (CHR 0x0A)) = []"
  then show "ResolveStreams E o' sent
        = (Inl (NoStreamVariants base), s @ [\<lparr>req_url = base, req_referer = []\<rparr>])"
    by (simp add: ResolveStreams_def StatusOK_def parseMasterPlaylist_def)
next
  assume "ResolveStreams E o' sent = (Inr vs, sent')"
  then show "vs \<noteq> []" by (rule ResolveStreams_nonempty)
qed

lemma TrimSpace_EXTM3U: "TrimSpace ''#EXTM3U'' = ''#EXTM3U''"
  by (rule TrimSpace_graphic; simp add: graphic_def)

theorem no_variants_is_an_error_witness:
  "fst (ResolveStreams (demo_env ''#EXTM3U'') demo_request []) = Inl (NoStreamVariants demo_master) \<and>
   fst (ResolveStreams (demo_env demo_playlist) demo_request []) \<noteq> Inr []"
proof -
  have t: "list_all (\<lambda>l. \<not> HasPrefix (TrimSpace l) ''#EXT-X-STREAM-INF'') (Split ''#EXTM3U'' (CHR 0x0A))"
    by (simp add: TrimSpace_EXTM3U)
  note w = no_variants_is_an_error [of "''#EXTM3U''" "demo_env ''#EXTM3U''" demo_master demo_request "[]"]
  have e: "variants_loop (demo_env ''#EXTM3U'') demo_master (Split ''#EXTM3U'' (CHR 0x0A)) = []"
    using w t by blast
  have 1: "fst (ResolveStreams (demo_env ''#EXTM3U'') demo_request []) = Inl (NoStreamVariants demo_master)"
    using w [of _ "[]" "[]"] e demo_ResolveVariants [of "''#EXTM3U''"] demo_get_master [of "''#EXTM3U''"]
    by simp
  obtain vs sent' where r: "ResolveStreams (demo_env demo_playlist) demo_request [] = (Inr vs, sent')"
    using demo_ResolveStreams by (cases "ResolveStreams (demo_env demo_playlist) demo_request []") auto
  have "vs \<noteq> []"
    using no_variants_is_an_error [of "[]" "demo_env demo_playlist" "[]" demo_request "[]" "[]" vs sent'] r
    by blast
  then have 2: "fst (ResolveStreams (demo_env demo_playlist) demo_request []) \<noteq> Inr []"
    using r by simp
  show ?thesis using 1 2 by simp
qed

section \<open>Claims about the hidden token and the decode stage\<close>

lemma decodeStreamURL_with_div:
  assumes "parseHTML E html = Some doc" "Find_hidden_div doc = d # ds"
  shows "fst (decodeStreamURL E html sent) =
           (if TrimSpace (nodeText d) = [] then Inl MissingComponents
            else case Deobfuscate (TrimSpace (nodeText d)) of
                   Inl e \<Rightarrow> Inl DeobfuscatingContent | Inr u \<Rightarrow> Inr u)"
  using assms
  by (simp add: decodeStreamURL_def hiddenDivContent_def Let_def split: sum.splits)

lemma decodeStreamURL_without_div:
  assumes "parseHTML E html = Some doc" "Find_hidden_div doc = []"
  shows "fst (decodeStreamURL E html sent) = Inl NoHiddenDiv"
  using assms by (simp add: decodeStreamURL_def hiddenDivContent_def Let_def)

text \<open>
  C9: on a stage-2 page with no \<open>div\<close> element whose \<open>style\<close> attribute is exactly
  \<open>display:none;\<close> the hidden-token extraction fails with \<open>NoHiddenDiv\<close>, the error
  of stage \<open>hidden-token\<close>. When such a div exists, the token extracted is the trimmed
  text of the first one; an empty token is an error, and the stage never returns the empty
  string as a success. The model is total: there is no panic.
\<close>

theorem hidden_token_extraction:
  "(parseHTML E html = Some doc
      \<and> (\<forall>n \<in> set (all_nodes doc).
            \<not> (has_tag ''div'' n \<and> matchAttribute n ''style'' (\<lambda>v. v = ''display:none;''))) \<longrightarrow>
      fst (decodeStreamURL E html sent) = Inl NoHiddenDiv
      \<and> kind_of NoHiddenDiv = ExtractionFailed ''hidden-token'') \<and>
   (Find_hidden_div doc = d # ds \<longrightarrow>
      has_tag ''div'' d \<and> matchAttribute d ''style'' (\<lambda>v. v = ''display:none;'')
      \<and> hiddenDivContent doc = Inr (TrimSpace (nodeText d))) \<and>
   (parseHTML E html = Some doc \<and> Find_hidden_div doc = d # ds \<and> TrimSpace (nodeText d) = [] \<longrightarrow>
      fst (decodeStreamURL E html sent) = Inl MissingComponents) \<and>
   fst (decodeStreamURL E html sent) \<noteq> Inr []"
proof (intro conjI impI)
  assume a: "parseHTML E html = Some doc
      \<and> (\<forall>n \<in> set (all_nodes doc).
            \<not> (has_tag ''div'' n \<and> matchAttribute n ''style'' (\<lambda>v. v = ''display:none;'')))"
  then have "Find_hidden_div doc = []" by (simp add: Find_hidden_div_def filter_empty_conv)
  then show "fst (decodeStreamURL E html sent) = Inl NoHiddenDiv"
    using a decodeStreamURL_without_div by blast
next
  show "kind_of NoHiddenDiv = ExtractionFailed ''hidden-token''" by simp
next
  assume a: "Find_hidden_div doc = d # ds"
  then have "d \<in> set (Find_hidden_div doc)" by simp
  then show "has_tag ''div'' d" "matchAttribute d ''style'' (\<lambda>v. v = ''display:none;'')"
    by (simp_all add: Find_hidden_div_def)
  show "hiddenDivContent doc = Inr (TrimSpace (nodeText d))"
    using a by (simp add: hiddenDivContent_def)
next
  assume "parseHTML E html = Some doc \<and> Find_hidden_div doc = d # ds \<and> TrimSpace (nodeText d) = []"
  then show "fst (decodeStreamURL E html sent) = Inl MissingComponents"
    using decodeStreamURL_with_div[of E html doc d ds sent] by simp
next
  show "fst (decodeStreamURL E html sent) \<noteq> Inr []" by (rule decodeStreamURL_never_empty)
qed


lemma TrimSpace_blank: "TrimSpace '' '' = []"
  by (simp add: TrimSpace_def space_encodings_eq)

theorem hidden_token_extraction_witness:
  "fst (decodeStreamURL (demo_env demo_playlist) demo_embed_html []) = Inl NoHiddenDiv \<and>
   hiddenDivContent demo_prorcp_doc = Inr demo_token \<and>
   fst (decodeStreamURL (env_page [Element ''div'' [(''style'', ''display:none;'')] [TextNode '' '']])
          ''<div style=display:none;> </div>'' []) = Inl MissingComponents"
proof -
  have none: "\<forall>n \<in> set (all_nodes demo_embed_doc).
            \<not> (has_tag ''div'' n \<and> matchAttribute n ''style'' (\<lambda>v. v = ''display:none;''))"
    by (simp add: demo_embed_doc_def all_nodes_def)
  have 1: "fst (decodeStreamURL (demo_env demo_playlist) demo_embed_html []) = Inl NoHiddenDiv"
    using hidden_token_extraction [of "demo_env demo_playlist" demo_embed_html demo_embed_doc "[]"]
      demo_parse(1) none by blast
  have 2: "hiddenDivContent demo_prorcp_doc = Inr demo_token"
    using hidden_token_extraction [of "demo_env demo_playlist" demo_prorcp_html demo_prorcp_doc "[]"
        "Element ''div'' [(''id'', ''xTyBxQyGTA''), (''style'', ''display:none;'')]
           [TextNode ('' '' @ demo_token @ [CHR 0x0A])]" "[]"]
      demo_hidden_div demo_token_trim by simp
  let ?d = "Element ''div'' [(''style'', ''display:none;'')] [TextNode '' '']"
  have f: "Find_hidden_div [?d] = [?d]" by (simp add: Find_hidden_div_def all_nodes_def)
  have p: "parseHTML (env_page [?d]) ''<div style=display:none;> </div>'' = Some [?d]"
    by (simp add: env_page_def)
  have 3: "fst (decodeStreamURL (env_page [?d]) ''<div style=display:none;> </div>'' []) = Inl MissingComponents"
    using hidden_token_extraction [of "env_page [?d]" "''<div style=display:none;> </div>''" "[?d]" "[]" ?d "[]"]
      f p TrimSpace_blank by simp
  show ?thesis using 1 2 3 by simp
qed

lemma hello_token: "spec_obfuscate ''hello'' (\<lambda>i. 0x78) = ''x=x8xGxbxsxVxGxa''"
proof -
  have "spec_base64_encode ''hello'' = ''aGVsbG8=''"
    by (simp add: enc_def encodeStd_def padChar_def)
  then show ?thesis unfolding obfuscate_x by simp
qed

text \<open>
  C2 (as amended): the decode stage validates nothing about URL syntax. With a non-empty
  trimmed token it returns exactly what \<open>Deobfuscate\<close> yields and fails, with the decode
  error, only when the transform itself fails; for every non-empty string, URL or not, the
  page whose hidden div holds its obfuscation makes the stage return that string; and the
  orchestrator returns the result of the stage as it is.
\<close>

theorem decode_stage_passes_result_on:
  "(parseHTML E html = Some doc \<and> Find_hidden_div doc = d # ds \<and> TrimSpace (nodeText d) \<noteq> [] \<longrightarrow>
      fst (decodeStreamURL E html sent)
        = (case Deobfuscate (TrimSpace (nodeText d)) of
             Inl e \<Rightarrow> Inl DeobfuscatingContent | Inr u \<Rightarrow> Inr u)
      \<and> kind_of DeobfuscatingContent = DecodeFailed) \<and>
   (u \<noteq> [] \<and> parseHTML E html = Some doc \<and> Find_hidden_div doc = d # ds
      \<and> nodeText d = spec_obfuscate u (\<lambda>i. 0x78) \<longrightarrow>
      fst (decodeStreamURL E html sent) = Inr u) \<and>
   (buildEmbedURL o' = Inr embedURL \<and> fetchContent E embedURL [] sent = (Inr embedHTML, s1)
      \<and> extractRCPURL E embedHTML = Inr rcpURL
      \<and> fetchContent E (''https:'' @ rcpURL) [] s1 = (Inr rcpHTML, s2)
      \<and> extractProRCPURL rcpHTML = Inr proRCPURL
      \<and> fetchContent E (''https://cloudnestra.com'' @ proRCPURL) ''https://cloudnestra.com'' s2
            = (Inr html, s3) \<longrightarrow>
      ResolveVariants E o' sent = decodeStreamURL E html s3)"
proof (intro conjI impI)
  assume "parseHTML E html = Some doc \<and> Find_hidden_div doc = d # ds \<and> TrimSpace (nodeText d) \<noteq> []"
  then show "fst (decodeStreamURL E html sent)
        = (case Deobfuscate (TrimSpace (nodeText d)) of
             Inl e \<Rightarrow> Inl DeobfuscatingContent | Inr u \<Rightarrow> Inr u)"
    using decodeStreamURL_with_div[of E html doc d ds sent] by simp
next
  show "kind_of DeobfuscatingContent = DecodeFailed" by simp
next
  assume a: "u \<noteq> [] \<and> parseHTML E html = Some doc \<and> Find_hidden_div doc = d # ds
      \<and> nodeText d = spec_obfuscate u (\<lambda>i. 0x78)"
  then have u: "u \<noteq> []" by simp
  have t: "TrimSpace (spec_obfuscate u (\<lambda>i. 0x78)) = spec_obfuscate u (\<lambda>i. 0x78)"
    using obfuscate_x_shape[OF u] by (rule TrimSpace_graphic)
  show "fst (decodeStreamURL E html sent) = Inr u"
    using a decodeStreamURL_with_div[of E html doc d ds sent] t obfuscate_x_shape(1)[OF u]
    by (simp add: Deobfuscate_obfuscate)
next
  assume "buildEmbedURL o' = Inr embedURL \<and> fetchContent E embedURL [] sent = (Inr embedHTML, s1)
      \<and> extractRCPURL E embedHTML = Inr rcpURL
      \<and> fetchContent E (''https:'' @ rcpURL) [] s1 = (Inr rcpHTML, s2)
      \<and> extractProRCPURL rcpHTML = Inr proRCPURL
      \<and> fetchContent E (''https://cloudnestra.com'' @ proRCPURL) ''https://cloudnestra.com'' s2
            = (Inr html, s3)"
  then show "ResolveVariants E o' sent = decodeStreamURL E html s3"
    by (simp add: ResolveVariants_def)
qed

text \<open>
  The claim as stated wants \<open>DecodeFailed\<close> when the decoded string is not an absolute URL.
  The token below decodes to \<open>hello\<close>, which has no scheme, and the stage returns it.
\<close>

theorem decode_stage_returns_non_URL:
  "\<not> spec_absolute_URL ''hello'' \<and>
   fst (decodeStreamURL
          (env_page [Element ''div'' [(''style'', ''display:none;'')] [TextNode ''x=x8xGxbxsxVxGxa'']])
          ''<div style=display:none;>x=x8xGxbxsxVxGxa</div>'' [])
     = Inr ''hello''"
proof -
  let ?d = "Element ''div'' [(''style'', ''display:none;'')] [TextNode ''x=x8xGxbxsxVxGxa'']"
  have f: "Find_hidden_div [?d] = [?d]" by (simp add: Find_hidden_div_def all_nodes_def)
  have p: "parseHTML (env_page [?d]) ''<div style=display:none;>x=x8xGxbxsxVxGxa</div>'' = Some [?d]"
    by (simp add: env_page_def)
  have t: "TrimSpace ''x=x8xGxbxsxVxGxa'' = ''x=x8xGxbxsxVxGxa''"
    by (rule TrimSpace_graphic; simp add: graphic_def)
  have d: "Deobfuscate ''x=x8xGxbxsxVxGxa'' = Inr ''hello''"
    using Deobfuscate_obfuscate[of "''hello''" "\<lambda>i. 0x78"] by (simp only: hello_token)
  have 1: "\<not> spec_absolute_URL ''hello''" by (simp add: spec_absolute_URL_def)
  have 2: "fst (decodeStreamURL (env_page [?d]) ''<div style=display:none;>x=x8xGxbxsxVxGxa</div>'' [])
     = Inr ''hello''"
    using decodeStreamURL_with_div[OF p f, of "[]"] t d by simp
  show ?thesis using 1 2 by simp
qed

theorem decode_stage_passes_result_on_witness:
  "ResolveVariants (demo_env demo_playlist) demo_request []
     = decodeStreamURL (demo_env demo_playlist) demo_prorcp_html
         [\<lparr>req_url = demo_entry_URL, req_referer = []\<rparr>,
          \<lparr>req_url = ''https://cloudnestra.com/rcp/abc'', req_referer = []\<rparr>,
          \<lparr>req_url = ''https://cloudnestra.com/prorcp/xyz'', req_referer = ''https://cloudnestra.com''\<rparr>] \<and>
   fst (decodeStreamURL
          (env_page [Element ''div'' [(''style'', ''display:none;'')] [TextNode ''x=x8xGxbxsxVxGxa'']])
          ''<div style=display:none;>x=x8xGxbxsxVxGxa</div>'' [])
     = Inr ''hello''"
proof -
  let ?E = "demo_env demo_playlist"
  have 1: "ResolveVariants ?E demo_request []
     = decodeStreamURL ?E demo_prorcp_html
         [\<lparr>req_url = demo_entry_URL, req_referer = []\<rparr>,
          \<lparr>req_url = ''https://cloudnestra.com/rcp/abc'', req_referer = []\<rparr>,
          \<lparr>req_url = ''https://cloudnestra.com/prorcp/xyz'', req_referer = ''https://cloudnestra.com''\<rparr>]"
    using decode_stage_passes_result_on [where E = ?E and html = demo_prorcp_html
        and o' = demo_request and embedURL = demo_entry_URL and sent = "[]"
        and embedHTML = demo_embed_html and ?s1.0 = "[\<lparr>req_url = demo_entry_URL, req_referer = []\<rparr>]"
        and rcpURL = "''//cloudnestra.com/rcp/abc''" and rcpHTML = demo_rcp_html
        and ?s2.0 = "[\<lparr>req_url = demo_entry_URL, req_referer = []\<rparr>,
          \<lparr>req_url = ''https://cloudnestra.com/rcp/abc'', req_referer = []\<rparr>]"
        and proRCPURL = "''/prorcp/xyz''"
        and ?s3.0 = "[\<lparr>req_url = demo_entry_URL, req_referer = []\<rparr>,
          \<lparr>req_url = ''https://cloudnestra.com/rcp/abc'', req_referer = []\<rparr>,
          \<lparr>req_url = ''https://cloudnestra.com/prorcp/xyz'', req_referer = ''https://cloudnestra.com''\<rparr>]"]
      demo_build demo_fetch1 [of demo_playlist "[]"] demo_extract_rcp [of demo_playlist]
      demo_fetch2 [of demo_playlist "[\<lparr>req_url = demo_entry_URL, req_referer = []\<rparr>]"]
      demo_extract_prorcp
      demo_fetch3 [of demo_playlist "[\<lparr>req_url = demo_entry_URL, req_referer = []\<rparr>,
          \<lparr>req_url = ''https://cloudnestra.com/rcp/abc'', req_referer = []\<rparr>]"]
    by simp
  let ?d = "Element ''div'' [(''style'', ''display:none;'')] [TextNode ''x=x8xGxbxsxVxGxa'']"
  have f: "Find_hidden_div [?d] = [?d]" by (simp add: Find_hidden_div_def all_nodes_def)
  have p: "parseHTML (env_page [?d]) ''<div style=display:none;>x=x8xGxbxsxVxGxa</div>'' = Some [?d]"
    by (simp add: env_page_def)
  have n: "nodeText ?d = spec_obfuscate ''hello'' (\<lambda>i. 0x78)" by (simp only: hello_token) simp
  have 2: "fst (decodeStreamURL (env_page [?d]) ''<div style=display:none;>x=x8xGxbxsxVxGxa</div>'' [])
     = Inr ''hello''"
    using decode_stage_passes_result_on [where E = "env_page [?d]"
        and html = "''<div style=display:none;>x=x8xGxbxsxVxGxa</div>''" and doc = "[?d]" and d = ?d
        and ds = "[]" and sent = "[]" and u = "''hello''"]
      f p n by simp
  show ?thesis using 1 2 by simp
qed

end
